theory Spec2Isabelle
  imports Main "HOL-Library.Word"
begin

section \<open>Bytes, buffers and JavaScript numbers\<close>

text \<open>
  A Node \<^verbatim>\<open>Buffer\<close> is a list of bytes.  A JavaScript string is modelled by the bytes of
  its UTF-8 encoding, held in a HOL \<^typ>\<open>string\<close> (a \<^typ>\<open>char\<close> is one byte), so that
  \<^verbatim>\<open>Buffer.from(str)\<close> and \<^verbatim>\<open>buf.toString()\<close> are the two directions of the
  byte/character correspondence.  JavaScript numbers that hold integers are \<^typ>\<open>int\<close>.
\<close>

type_synonym byte = "8 word"
type_synonym bytes = "byte list"

definition buffer_from_utf8 :: "string \<Rightarrow> bytes" where
  "buffer_from_utf8 str = map (\<lambda>ch. of_nat (of_char ch)) str"

definition buffer_to_utf8 :: "bytes \<Rightarrow> string" where
  "buffer_to_utf8 buf = map (\<lambda>b. char_of (unat b)) buf"

text \<open>
  \<^verbatim>\<open>buf.slice(start, end)\<close>: a negative index counts from the end, both indices are
  clamped to the buffer, an empty range gives the empty buffer.
\<close>

definition buffer_slice :: "bytes \<Rightarrow> int \<Rightarrow> int \<Rightarrow> bytes" where
  "buffer_slice buf start end =
     (let len = int (length buf);
          s = (if start < 0 then max (len + start) 0 else min start len);
          e = (if end < 0 then max (len + end) 0 else min end len)
      in if s < e then take (nat (e - s)) (drop (nat s) buf) else [])"

text \<open>\<^verbatim>\<open>buf.slice(start)\<close>: the end defaults to the length of the buffer.\<close>

definition buffer_slice_from :: "bytes \<Rightarrow> int \<Rightarrow> bytes" where
  "buffer_slice_from buf start = buffer_slice buf start (int (length buf))"

text \<open>Big-endian unsigned integers, as written by \<^verbatim>\<open>writeUInt32BE\<close> and
  \<^verbatim>\<open>writeBigUInt64BE\<close> and read by their \<^verbatim>\<open>read\<close> counterparts.\<close>

fun be_bytes :: "nat \<Rightarrow> nat \<Rightarrow> bytes" where
  "be_bytes 0 v = []"
| "be_bytes (Suc n) v = of_nat (v div 256 ^ n) # be_bytes n v"

fun be_value :: "bytes \<Rightarrow> nat" where
  "be_value [] = 0"
| "be_value (b # bs) = unat b * 256 ^ length bs + be_value bs"

text \<open>
  \<^verbatim>\<open>Number(b)\<close> for a non-negative BigInt \<open>b\<close>: the nearest IEEE-754 double (53 bits of
  significand), ties to even.  The result is an integer, so it is given as a \<^typ>\<open>nat\<close>.
\<close>

fun bit_length :: "nat \<Rightarrow> nat" where
  "bit_length n = (if n = 0 then 0 else Suc (bit_length (n div 2)))"

declare bit_length.simps [simp del]

definition number_of_bigint :: "nat \<Rightarrow> nat" where
  "number_of_bigint n =
     (if bit_length n \<le> 53 then n
      else let e = bit_length n - 53;
               q = n div 2 ^ e;
               r = n mod 2 ^ e;
               half = 2 ^ (e - 1)
           in (if r < half \<or> (r = half \<and> even q) then q else q + 1) * 2 ^ e)"

text \<open>Hexadecimal text, the \<^verbatim>\<open>'hex'\<close> encoding of buffers.  Decoding stops at the first
  pair that is not two hexadecimal digits, as \<^verbatim>\<open>Buffer.from(s, 'hex')\<close> does.\<close>

definition hex_digit :: "nat \<Rightarrow> char" where
  "hex_digit n = ''0123456789abcdef'' ! (n mod 16)"

definition hex_value :: "char \<Rightarrow> nat option" where
  "hex_value ch =
     (let k = (of_char ch :: nat) in
      if 48 \<le> k \<and> k \<le> 57 then Some (k - 48)
      else if 97 \<le> k \<and> k \<le> 102 then Some (k - 87)
      else if 65 \<le> k \<and> k \<le> 70 then Some (k - 55)
      else None)"

fun to_hex :: "bytes \<Rightarrow> string" where
  "to_hex [] = []"
| "to_hex (b # bs) = hex_digit (unat b div 16) # hex_digit (unat b mod 16) # to_hex bs"

fun from_hex :: "string \<Rightarrow> bytes" where
  "from_hex (hi # lo # rest) =
     (case (hex_value hi, hex_value lo) of
        (Some h, Some l) \<Rightarrow> of_nat (16 * h + l) # from_hex rest
      | _ \<Rightarrow> [])"
| "from_hex _ = []"

section \<open>Payloads\<close>

text \<open>
  Payloads are JavaScript values built from object literals and returned by
  \<^verbatim>\<open>JSON.parse\<close>.  \<open>JHost\<close> stands for a host object such as a key object, carried by
  the bytes that identify it.
\<close>

datatype json =
    JUndefined
  | JNull
  | JBool bool
  | JNum int
  | JStr string
  | JHost bytes
  | JArr "json list"
  | JObj "(string \<times> json) list"

section \<open>Errors\<close>

text \<open>
  Every \<^verbatim>\<open>throw\<close> of the source and every exception of the runtime that the model
  follows is a value of this type.  The names of the specification are given in brackets.
\<close>

datatype error =
    InvalidState            \<comment> \<open>'Invalid protocol state' [InvalidState]\<close>
  | ProtocolTimeout         \<comment> \<open>'Protocol timeout' [ProtocolTimeout]\<close>
  | MessageTooShort         \<comment> \<open>'Message too short' [TooShort]\<close>
  | HMACVerificationFailed  \<comment> \<open>'HMAC verification failed' [AuthenticationFailed]\<close>
  | InvalidHeaderLength     \<comment> \<open>'Invalid header length' [InvalidHeader]\<close>
  | InvalidSequenceNumber   \<comment> \<open>'Invalid sequence number' [SequenceError]\<close>
  | UnknownMessageType      \<comment> \<open>'Unknown message type' [UnknownMessageType]\<close>
  | NoConnectionAvailable   \<comment> \<open>'No connection available'\<close>
  | AckTimeout              \<comment> \<open>'Message acknowledgment timeout' [AckTimeout]\<close>
  | ReceiveTimeout          \<comment> \<open>'Receive timeout' [ReceiveTimeout]\<close>
  | CipherError             \<comment> \<open>thrown by the cipher of the crypto library\<close>
  | DecipherError           \<comment> \<open>thrown by the decipher of the crypto library [AuthenticationFailed]\<close>
  | KeyAgreementError       \<comment> \<open>thrown by \<^verbatim>\<open>crypto.diffieHellman\<close>\<close>
  | SyntaxError             \<comment> \<open>thrown by \<^verbatim>\<open>JSON.parse\<close> [DecodeError]\<close>
  | RangeError              \<comment> \<open>thrown by a buffer write out of range, or by \<^verbatim>\<open>timingSafeEqual\<close>\<close>
  | TypeError               \<comment> \<open>property access on \<^verbatim>\<open>null\<close> or \<^verbatim>\<open>undefined\<close>, and the like\<close>

section \<open>The library the code calls\<close>

text \<open>
  The cryptographic primitives of Node's \<^verbatim>\<open>crypto\<close> module and the JSON functions of the
  language are not code of this repository: they are parameters of the model.  \<open>None\<close> is
  a thrown exception.
\<close>

record library =
  cipher_gcm :: "bytes \<Rightarrow> bytes \<Rightarrow> bytes \<Rightarrow> (bytes \<times> bytes) option"
    \<comment> \<open>aes-256-gcm: key, iv, plaintext to ciphertext and tag\<close>
  decipher_gcm :: "bytes \<Rightarrow> bytes \<Rightarrow> bytes \<Rightarrow> bytes \<Rightarrow> bytes option"
    \<comment> \<open>aes-256-gcm: key, iv, ciphertext, tag to plaintext\<close>
  hmac_sha256 :: "bytes \<Rightarrow> bytes \<Rightarrow> bytes"
    \<comment> \<open>key, data to digest\<close>
  hkdf_sha256 :: "bytes \<Rightarrow> bytes \<Rightarrow> bytes \<Rightarrow> nat \<Rightarrow> bytes"
    \<comment> \<open>input key material, salt, info, length to output key material\<close>
  diffie_hellman :: "bytes \<Rightarrow> json \<Rightarrow> bytes option"
    \<comment> \<open>x25519: private key, public key to shared secret\<close>
  json_stringify :: "json \<Rightarrow> string option"
    \<comment> \<open>\<open>None\<close> when \<^verbatim>\<open>JSON.stringify\<close> gives \<^verbatim>\<open>undefined\<close>\<close>
  json_parse :: "string \<Rightarrow> json option"

text \<open>The calls into the crypto library, in the order the code makes them.\<close>

datatype crypto_call =
    CreateCipheriv bytes bytes bytes          \<comment> \<open>key, iv, plaintext\<close>
  | CreateDecipheriv bytes bytes bytes bytes  \<comment> \<open>key, iv, ciphertext, tag\<close>
  | CreateHmac bytes bytes                    \<comment> \<open>key, data\<close>

type_synonym 'a traced = "crypto_call list \<times> 'a"

section \<open>crypto.js\<close>

definition VERSION :: int where "VERSION = 1"
definition KEY_LENGTH :: int where "KEY_LENGTH = 32"
definition SALT :: bytes where "SALT = buffer_from_utf8 ''SCP-Protocol-Salt-2024''"
definition INFO :: bytes where "INFO = buffer_from_utf8 ''SCP-Key-Derivation''"

definition MESSAGE_TYPES_HANDSHAKE_INIT :: int where "MESSAGE_TYPES_HANDSHAKE_INIT = 1"
definition MESSAGE_TYPES_HANDSHAKE_RESPONSE :: int where "MESSAGE_TYPES_HANDSHAKE_RESPONSE = 2"
definition MESSAGE_TYPES_DATA :: int where "MESSAGE_TYPES_DATA = 3"
definition MESSAGE_TYPES_ACK :: int where "MESSAGE_TYPES_ACK = 4"
definition MESSAGE_TYPES_CLOSE :: int where "MESSAGE_TYPES_CLOSE = 5"

record session_keys =
  encryptionKey :: bytes
  hmacKey :: bytes

definition deriveKeys :: "library \<Rightarrow> bytes \<Rightarrow> bytes \<Rightarrow> bytes \<Rightarrow> session_keys" where
  "deriveKeys L sharedSecret salt info =
     (let keyMaterial = hkdf_sha256 L sharedSecret salt info 64
      in \<lparr>encryptionKey = buffer_slice keyMaterial 0 KEY_LENGTH,
          hmacKey = buffer_slice_from keyMaterial KEY_LENGTH\<rparr>)"

record encrypted_data =
  encrypted :: string
  iv :: bytes
  tag :: bytes

text \<open>\<open>random_iv\<close> is what \<^verbatim>\<open>crypto.randomBytes(IV_LENGTH)\<close> returns when no iv is given.\<close>

definition encrypt ::
  "library \<Rightarrow> bytes \<Rightarrow> string \<Rightarrow> bytes \<Rightarrow> bytes option \<Rightarrow> (error + encrypted_data) traced" where
  "encrypt L random_iv plaintext key iv_arg =
     (let ivBuffer = (case iv_arg of Some v \<Rightarrow> v | None \<Rightarrow> random_iv)
      in ([CreateCipheriv key ivBuffer (buffer_from_utf8 plaintext)],
          case cipher_gcm L key ivBuffer (buffer_from_utf8 plaintext) of
            None \<Rightarrow> Inl CipherError
          | Some (ct, t) \<Rightarrow> Inr \<lparr>encrypted = to_hex ct, iv = ivBuffer, tag = t\<rparr>))"

text \<open>The decipher is created and given the tag; then \<^verbatim>\<open>decipher.update\<close> throws on hex
  text of odd length.\<close>

definition decrypt ::
  "library \<Rightarrow> string \<Rightarrow> bytes \<Rightarrow> bytes \<Rightarrow> bytes \<Rightarrow> (error + string) traced" where
  "decrypt L encrypted_hex key iv_arg tag_arg =
     ([CreateDecipheriv key iv_arg (from_hex encrypted_hex) tag_arg],
      if odd (length encrypted_hex) then Inl TypeError
      else case decipher_gcm L key iv_arg (from_hex encrypted_hex) tag_arg of
             None \<Rightarrow> Inl DecipherError
           | Some pt \<Rightarrow> Inr (buffer_to_utf8 pt))"

definition generateHMAC :: "library \<Rightarrow> bytes \<Rightarrow> bytes \<Rightarrow> bytes traced" where
  "generateHMAC L data key = ([CreateHmac key data], hmac_sha256 L key data)"

text \<open>\<^verbatim>\<open>crypto.timingSafeEqual\<close> throws when its arguments differ in length.\<close>

definition verifyHMAC :: "library \<Rightarrow> bytes \<Rightarrow> bytes \<Rightarrow> bytes \<Rightarrow> (error + bool) traced" where
  "verifyHMAC L data key expectedHMAC =
     (let (calls, actualHMAC) = generateHMAC L data key
      in (calls,
          if length actualHMAC \<noteq> length expectedHMAC then Inl RangeError
          else Inr (actualHMAC = expectedHMAC)))"

text \<open>The writes throw a \<^verbatim>\<open>RangeError\<close> when the value does not fit the field.\<close>

definition createMessageHeader :: "int \<Rightarrow> int \<Rightarrow> nat \<Rightarrow> error + bytes" where
  "createMessageHeader messageType sequenceNumber payloadLength =
     (if messageType < 0 \<or> 255 < messageType then Inl RangeError
      else if sequenceNumber < 0 \<or> 2 ^ 64 \<le> sequenceNumber then Inl RangeError
      else if 2 ^ 32 \<le> payloadLength then Inl RangeError
      else Inr (of_int VERSION # of_int messageType
                # be_bytes 8 (nat sequenceNumber) @ be_bytes 4 payloadLength))"

definition createMessage ::
  "library \<Rightarrow> bytes \<Rightarrow> int \<Rightarrow> int \<Rightarrow> json \<Rightarrow> bytes \<Rightarrow> bytes \<Rightarrow> (error + bytes) traced" where
  "createMessage L random_iv messageType sequenceNumber payload encKey macKey =
     (case json_stringify L payload of
        None \<Rightarrow> ([], Inl TypeError)
      | Some text \<Rightarrow>
          (let payloadBuffer = buffer_from_utf8 text in
           (case createMessageHeader messageType sequenceNumber (length payloadBuffer) of
              Inl e \<Rightarrow> ([], Inl e)
            | Inr header \<Rightarrow>
                (case encrypt L random_iv (buffer_to_utf8 payloadBuffer) encKey None of
                   (calls, Inl e) \<Rightarrow> (calls, Inl e)
                 | (calls, Inr encryptedData) \<Rightarrow>
                     (let encryptedPayload = from_hex (encrypted encryptedData);
                          messageBody = iv encryptedData @ encryptedPayload @ tag encryptedData;
                          hmacData = header @ messageBody;
                          (calls', hmac) = generateHMAC L hmacData macKey
                      in (calls @ calls', Inr (header @ messageBody @ hmac)))))))"

record message_header =
  version :: int
  messageType :: int
  sequenceNumber :: int
  payloadLength :: int

definition parseMessageHeader :: "bytes \<Rightarrow> error + message_header" where
  "parseMessageHeader headerBuffer =
     (if length headerBuffer < 14 then Inl InvalidHeaderLength
      else Inr \<lparr>version = uint (headerBuffer ! 0),
               messageType = uint (headerBuffer ! 1),
               sequenceNumber = int (number_of_bigint (be_value (take 8 (drop 2 headerBuffer)))),
               payloadLength = int (be_value (take 4 (drop 10 headerBuffer)))\<rparr>)"

record parsed_message =
  header :: message_header
  payload :: json

definition parseMessage ::
  "library \<Rightarrow> bytes \<Rightarrow> bytes \<Rightarrow> bytes \<Rightarrow> (error + parsed_message) traced" where
  "parseMessage L messageBuffer encKey macKey =
     (if length messageBuffer < 14 + 12 + 16 + 32 then ([], Inl MessageTooShort)
      else
        let headerB = buffer_slice messageBuffer 0 14;
            ivB = buffer_slice messageBuffer 14 26;
            encryptedPayload = buffer_slice messageBuffer 26 (- 48);
            tagB = buffer_slice messageBuffer (- 48) (- 32);
            hmac = buffer_slice_from messageBuffer (- 32);
            hmacData = buffer_slice messageBuffer 0 (- 32)
        in case verifyHMAC L hmacData macKey hmac of
             (calls, Inl e) \<Rightarrow> (calls, Inl e)
           | (calls, Inr False) \<Rightarrow> (calls, Inl HMACVerificationFailed)
           | (calls, Inr True) \<Rightarrow>
               (case parseMessageHeader headerB of
                  Inl e \<Rightarrow> (calls, Inl e)
                | Inr headerInfo \<Rightarrow>
                    (case decrypt L (to_hex encryptedPayload) encKey ivB tagB of
                       (calls', Inl e) \<Rightarrow> (calls @ calls', Inl e)
                     | (calls', Inr decryptedPayload) \<Rightarrow>
                         (case json_parse L decryptedPayload of
                            None \<Rightarrow> (calls @ calls', Inl SyntaxError)
                          | Some p \<Rightarrow>
                              (calls @ calls', Inr \<lparr>header = headerInfo, payload = p\<rparr>)))))"

section \<open>protocol.js\<close>

datatype protocol_state = DISCONNECTED | HANDSHAKE_INIT | HANDSHAKE_RESPONSE | CONNECTED | CLOSED

record key_pair =
  publicKey :: bytes
  privateKey :: bytes

text \<open>
  The connection object that \<^verbatim>\<open>connect\<close> builds.  Its two functions are fixed by the code:
  \<^verbatim>\<open>send\<close> is \<^verbatim>\<open>(data) => this._sendData(data)\<close> and \<^verbatim>\<open>close\<close> is
  \<^verbatim>\<open>() => this._closeConnection()\<close>.
\<close>

record transport =
  address :: string
  port :: int

text \<open>
  A promise is known by a number, and so is a timer.  An entry of \<^verbatim>\<open>pendingRequests\<close> or
  of \<^verbatim>\<open>messageQueue\<close> holds the \<^verbatim>\<open>resolve\<close> and \<^verbatim>\<open>reject\<close> functions of one
  promise and the timer of that promise.
\<close>

record waiter =
  promise :: nat
  timeout :: nat

datatype outcome = Pending | Resolved json | Rejected error

text \<open>What the instance shows to the outside: the callbacks it invokes and the data it
  hands to \<^verbatim>\<open>_sendData\<close>.\<close>

datatype event = OnMessage json | OnConnect | OnDisconnect | OnError error | SendData bytes

text \<open>
  The fields of the class, then the part of the runtime the class acts on: the promises it
  created, the timers that are armed, the next fresh identifier and the trace of events.
  The field \<^verbatim>\<open>this.sequenceNumber\<close> is \<open>this_sequenceNumber\<close>, the name
  \<open>sequenceNumber\<close> being the header field.  A callback field holds whether a handler is
  installed; handlers are observers and do not throw.  The options only set the delay of
  the timers, which the model leaves open: a timer fires at any moment while it is armed.
\<close>

record protocol =
  state :: protocol_state
  this_sequenceNumber :: int
  remoteSequenceNumber :: int
  sessionKeys :: "session_keys option"
  keyPair :: "key_pair option"
  remotePublicKey :: json
  connection :: "transport option"
  messageQueue :: "waiter list"
  pendingRequests :: "int \<rightharpoonup> waiter"
  timeoutId :: "nat option"
  onMessage :: bool
  onConnect :: bool
  onDisconnect :: bool
  onError :: bool
  promises :: "nat \<rightharpoonup> outcome"
  timers :: "nat set"
  next_id :: nat
  events :: "event list"

text \<open>
  What the runtime supplies to one call: random bytes, a generated key pair, the clock, and
  the room left on the call stack, counted in nested calls of \<^verbatim>\<open>_closeConnection\<close> that
  still fit.
\<close>

record runtime_inputs =
  random_bytes_12 :: bytes
  random_bytes_32 :: bytes
  generated_key_pair :: key_pair
  date_now :: int
  stack_depth :: nat

definition new_protocol :: protocol where
  "new_protocol =
     \<lparr>state = DISCONNECTED, this_sequenceNumber = 0, remoteSequenceNumber = 0,
      sessionKeys = None, keyPair = None, remotePublicKey = JNull, connection = None,
      messageQueue = [], pendingRequests = Map.empty, timeoutId = None,
      onMessage = False, onConnect = False, onDisconnect = False, onError = False,
      promises = Map.empty, timers = {}, next_id = 0, events = []\<rparr>"

subsection \<open>Promises, timers, property access\<close>

definition new_promise :: "protocol \<Rightarrow> nat \<times> protocol" where
  "new_promise s =
     (next_id s, s\<lparr>promises := (promises s)(next_id s \<mapsto> Pending), next_id := next_id s + 1\<rparr>)"

text \<open>A promise settles once: \<^verbatim>\<open>resolve\<close> and \<^verbatim>\<open>reject\<close> on a settled promise do
  nothing.\<close>

definition settle :: "nat \<Rightarrow> outcome \<Rightarrow> protocol \<Rightarrow> protocol" where
  "settle p out s =
     (case promises s p of
        Some Pending \<Rightarrow> s\<lparr>promises := (promises s)(p \<mapsto> out)\<rparr>
      | _ \<Rightarrow> s)"

definition js_setTimeout :: "protocol \<Rightarrow> nat \<times> protocol" where
  "js_setTimeout s =
     (next_id s, s\<lparr>timers := insert (next_id s) (timers s), next_id := next_id s + 1\<rparr>)"

definition js_clearTimeout :: "nat \<Rightarrow> protocol \<Rightarrow> protocol" where
  "js_clearTimeout t s = s\<lparr>timers := timers s - {t}\<rparr>"

text \<open>\<^verbatim>\<open>value.name\<close>: a \<^verbatim>\<open>TypeError\<close> on \<^verbatim>\<open>null\<close> and \<^verbatim>\<open>undefined\<close>,
  \<^verbatim>\<open>undefined\<close> where the property is missing.\<close>

definition get_prop :: "json \<Rightarrow> string \<Rightarrow> error + json" where
  "get_prop v name =
     (case v of
        JUndefined \<Rightarrow> Inl TypeError
      | JNull \<Rightarrow> Inl TypeError
      | JObj kvs \<Rightarrow> Inr (case map_of kvs name of Some x \<Rightarrow> x | None \<Rightarrow> JUndefined)
      | _ \<Rightarrow> Inr JUndefined)"

text \<open>\<^verbatim>\<open>pendingRequests.get(key)\<close>: the keys of the map are numbers.\<close>

definition pending_get :: "(int \<rightharpoonup> waiter) \<Rightarrow> json \<Rightarrow> (int \<times> waiter) option" where
  "pending_get m key =
     (case key of
        JNum n \<Rightarrow> (case m n of Some w \<Rightarrow> Some (n, w) | None \<Rightarrow> None)
      | _ \<Rightarrow> None)"

subsection \<open>The private methods\<close>

definition emit :: "event \<Rightarrow> protocol \<Rightarrow> protocol" where
  "emit ev s = s\<lparr>events := events s @ [ev]\<rparr>"

definition clearTimeout :: "protocol \<Rightarrow> protocol" where
  "clearTimeout s =
     (case timeoutId s of
        Some t \<Rightarrow> (js_clearTimeout t s)\<lparr>timeoutId := None\<rparr>
      | None \<Rightarrow> s)"

definition startTimeout :: "protocol \<Rightarrow> protocol" where
  "startTimeout s =
     (let (t, s') = js_setTimeout (clearTimeout s) in s'\<lparr>timeoutId := Some t\<rparr>)"

text \<open>
  \<^verbatim>\<open>_closeConnection\<close>.  With a connection present it calls \<^verbatim>\<open>this.connection.close()\<close>,
  which is \<^verbatim>\<open>this._closeConnection()\<close> again, before it sets \<^verbatim>\<open>this.connection\<close> to
  \<^verbatim>\<open>null\<close>.  The body has no \<^verbatim>\<open>await\<close>, so the inner call runs to its end first, and
  the calls nest until the call stack is full.  \<open>depth\<close> is the number of nested calls that
  still fit.  The call that does not fit throws a \<^verbatim>\<open>RangeError\<close>; the function is
  \<^verbatim>\<open>async\<close>, so the error ends as a rejected promise that nobody awaits, and that call
  changes nothing: the state is \<^verbatim>\<open>CLOSED\<close> and the timer is cleared already.  Every call
  above it goes on after \<^verbatim>\<open>this.connection.close()\<close>: it sets the connection to
  \<^verbatim>\<open>null\<close> and invokes the disconnect handler.
\<close>

fun closeConnection :: "nat \<Rightarrow> protocol \<Rightarrow> protocol" where
  "closeConnection depth s =
     (let s1 = clearTimeout (s\<lparr>state := CLOSED\<rparr>);
          s2 = (case connection s1 of
                  None \<Rightarrow> s1
                | Some c \<Rightarrow>
                    (if depth = 0 then s1 else closeConnection (depth - 1) s1)
                      \<lparr>connection := None\<rparr>)
      in if onDisconnect s2 then emit OnDisconnect s2 else s2)"

declare closeConnection.simps [simp del]

definition handleError :: "nat \<Rightarrow> error \<Rightarrow> protocol \<Rightarrow> protocol" where
  "handleError depth e s =
     (let s' = (if onError s then emit (OnError e) s else s)
      in if state s' \<noteq> CLOSED then closeConnection depth s' else s')"

text \<open>\<^verbatim>\<open>_sendData\<close> logs and schedules the mock response, which is a later call of
  \<open>simulateResponse\<close>.\<close>

definition sendData :: "bytes \<Rightarrow> protocol \<Rightarrow> protocol" where
  "sendData d s = emit (SendData d) s"

definition sendProtocolMessage :: "bytes \<Rightarrow> protocol \<Rightarrow> protocol \<times> (error + unit)" where
  "sendProtocolMessage message s =
     (case connection s of
        Some c \<Rightarrow> (sendData message s, Inr ())
      | None \<Rightarrow> (s, Inl NoConnectionAvailable))"

text \<open>
  The common part of every sender: take the sequence number and increment the counter,
  read the session keys, build the frame, hand it to the connection.  The arguments of
  \<^verbatim>\<open>createMessage\<close> are evaluated from left to right, so the counter is incremented
  before a missing \<^verbatim>\<open>sessionKeys\<close> throws.
\<close>

definition send_frame ::
  "library \<Rightarrow> runtime_inputs \<Rightarrow> int \<Rightarrow> json \<Rightarrow> protocol \<Rightarrow> protocol \<times> (error + unit)" where
  "send_frame L inp mtype body s =
     (let seq = this_sequenceNumber s;
          s1 = s\<lparr>this_sequenceNumber := seq + 1\<rparr>
      in case sessionKeys s1 of
           None \<Rightarrow> (s1, Inl TypeError)
         | Some keys \<Rightarrow>
             (case snd (createMessage L (random_bytes_12 inp) mtype seq body
                          (encryptionKey keys) (hmacKey keys)) of
                Inl e \<Rightarrow> (s1, Inl e)
              | Inr message \<Rightarrow> sendProtocolMessage message s1))"

definition startHandshake ::
  "library \<Rightarrow> runtime_inputs \<Rightarrow> protocol \<Rightarrow> protocol \<times> (error + unit)" where
  "startHandshake L inp s =
     (case keyPair s of
        None \<Rightarrow> (s, Inl TypeError)
      | Some kp \<Rightarrow>
          (let handshakeData = JObj [(''type'', JStr ''handshake_init''),
                                     (''publicKey'', JHost (publicKey kp)),
                                     (''supportedVersions'', JArr [JNum 1]),
                                     (''timestamp'', JNum (date_now inp))];
               tempKey = random_bytes_32 inp;
               seq = this_sequenceNumber s;
               s1 = s\<lparr>this_sequenceNumber := seq + 1\<rparr>
           in (case snd (createMessage L (random_bytes_12 inp) MESSAGE_TYPES_HANDSHAKE_INIT seq
                           handshakeData tempKey tempKey) of
                 Inl e \<Rightarrow> (s1, Inl e)
               | Inr handshakeMessage \<Rightarrow> sendProtocolMessage handshakeMessage s1)))"

definition handleHandshakeResponse ::
  "library \<Rightarrow> runtime_inputs \<Rightarrow> json \<Rightarrow> protocol \<Rightarrow> protocol \<times> (error + unit)" where
  "handleHandshakeResponse L inp messageData s =
     (case get_prop messageData ''publicKey'' of
        Inl e \<Rightarrow> (s, Inl e)
      | Inr pk \<Rightarrow>
          (let s1 = s\<lparr>remotePublicKey := pk\<rparr> in
           (case keyPair s1 of
              None \<Rightarrow> (s1, Inl TypeError)
            | Some kp \<Rightarrow>
                (case diffie_hellman L (privateKey kp) pk of
                   None \<Rightarrow> (s1, Inl KeyAgreementError)
                 | Some sharedSecret \<Rightarrow>
                     (let s2 = s1\<lparr>sessionKeys := Some (deriveKeys L sharedSecret SALT INFO)\<rparr>;
                          ackData = JObj [(''type'', JStr ''handshake_ack''),
                                          (''status'', JStr ''success''),
                                          (''timestamp'', JNum (date_now inp))]
                      in (case send_frame L inp MESSAGE_TYPES_ACK ackData s2 of
                            (s3, Inl e) \<Rightarrow> (s3, Inl e)
                          | (s3, Inr u) \<Rightarrow>
                              (startTimeout (s3\<lparr>state := CONNECTED\<rparr>), Inr ())))))))"

definition handleDataMessage ::
  "library \<Rightarrow> runtime_inputs \<Rightarrow> json \<Rightarrow> protocol \<Rightarrow> protocol \<times> (error + unit)" where
  "handleDataMessage L inp messageData s =
     (case (if onMessage s
            then (case get_prop messageData ''payload'' of
                    Inl e \<Rightarrow> (s, Inl e)
                  | Inr v \<Rightarrow> (emit (OnMessage v) s, Inr ()))
            else (s, Inr ())) of
        (s1, Inl e) \<Rightarrow> (s1, Inl e)
      | (s1, Inr u) \<Rightarrow>
          (case get_prop messageData ''sequenceNumber'' of
             Inl e \<Rightarrow> (s1, Inl e)
           | Inr sn \<Rightarrow>
               (let ackData = JObj [(''type'', JStr ''ack''),
                                    (''sequenceNumber'', sn),
                                    (''timestamp'', JNum (date_now inp))]
                in (case send_frame L inp MESSAGE_TYPES_ACK ackData s1 of
                      (s2, Inl e) \<Rightarrow> (s2, Inl e)
                    | (s2, Inr u) \<Rightarrow>
                        (case messageQueue s2 of
                           [] \<Rightarrow> (s2, Inr ())
                         | pending # rest \<Rightarrow>
                             (case get_prop messageData ''payload'' of
                                Inl e \<Rightarrow>
                                  (js_clearTimeout (timeout pending)
                                     (s2\<lparr>messageQueue := rest\<rparr>), Inl e)
                              | Inr v \<Rightarrow>
                                  (settle (promise pending) (Resolved v)
                                     (js_clearTimeout (timeout pending)
                                        (s2\<lparr>messageQueue := rest\<rparr>)),
                                   Inr ())))))))"

definition handleAcknowledgment :: "json \<Rightarrow> protocol \<Rightarrow> protocol \<times> (error + unit)" where
  "handleAcknowledgment messageData s =
     (case get_prop messageData ''sequenceNumber'' of
        Inl e \<Rightarrow> (s, Inl e)
      | Inr key \<Rightarrow>
          (case pending_get (pendingRequests s) key of
             None \<Rightarrow> (s, Inr ())
           | Some (n, request) \<Rightarrow>
               (settle (promise request) (Resolved messageData)
                  ((js_clearTimeout (timeout request) s)
                     \<lparr>pendingRequests := (pendingRequests s)(n := None)\<rparr>),
                Inr ())))"

definition handleClose :: "nat \<Rightarrow> json \<Rightarrow> protocol \<Rightarrow> protocol \<times> (error + unit)" where
  "handleClose depth messageData s = (closeConnection depth s, Inr ())"

text \<open>\<^verbatim>\<open>_processMessage\<close>: the \<^verbatim>\<open>try\<close> block, then the \<^verbatim>\<open>catch\<close>.\<close>

definition processMessage ::
  "library \<Rightarrow> runtime_inputs \<Rightarrow> bytes \<Rightarrow> protocol \<Rightarrow> protocol" where
  "processMessage L inp messageBuffer s =
     (let attempt =
        (case sessionKeys s of
           None \<Rightarrow> (s, Inl TypeError)
         | Some keys \<Rightarrow>
             (case snd (parseMessage L messageBuffer (encryptionKey keys) (hmacKey keys)) of
                Inl e \<Rightarrow> (s, Inl e)
              | Inr m \<Rightarrow>
                  if sequenceNumber (header m) \<le> remoteSequenceNumber s
                  then (s, Inl InvalidSequenceNumber)
                  else
                    let s1 = s\<lparr>remoteSequenceNumber := sequenceNumber (header m)\<rparr> in
                    if messageType (header m) = MESSAGE_TYPES_HANDSHAKE_RESPONSE
                    then handleHandshakeResponse L inp (payload m) s1
                    else if messageType (header m) = MESSAGE_TYPES_DATA
                    then handleDataMessage L inp (payload m) s1
                    else if messageType (header m) = MESSAGE_TYPES_ACK
                    then handleAcknowledgment (payload m) s1
                    else if messageType (header m) = MESSAGE_TYPES_CLOSE
                    then handleClose (stack_depth inp) (payload m) s1
                    else (s1, Inl UnknownMessageType)))
      in case attempt of
           (s', Inr u) \<Rightarrow> s'
         | (s', Inl e) \<Rightarrow> handleError (stack_depth inp) e s')"

definition simulateResponse :: "library \<Rightarrow> runtime_inputs \<Rightarrow> protocol \<Rightarrow> protocol" where
  "simulateResponse L inp s = processMessage L inp (buffer_from_utf8 ''Mock response data'') s"

subsection \<open>The public methods\<close>

definition initialize :: "runtime_inputs \<Rightarrow> protocol \<Rightarrow> protocol \<times> key_pair" where
  "initialize inp s =
     (s\<lparr>keyPair := Some (generated_key_pair inp), this_sequenceNumber := 0,
        remoteSequenceNumber := 0, state := HANDSHAKE_INIT\<rparr>,
      generated_key_pair inp)"

definition connect ::
  "library \<Rightarrow> runtime_inputs \<Rightarrow> string \<Rightarrow> int \<Rightarrow> key_pair option \<Rightarrow> protocol
     \<Rightarrow> protocol \<times> bool" where
  "connect L inp remoteAddress remotePort keyPair_arg s =
     (let s1 = (case keyPair_arg of
                  Some kp \<Rightarrow> s\<lparr>keyPair := Some kp\<rparr>
                | None \<Rightarrow> if keyPair s = None then fst (initialize inp s) else s);
          s2 = s1\<lparr>state := HANDSHAKE_INIT\<rparr>;
          s3 = s2\<lparr>connection := Some \<lparr>address = remoteAddress, port = remotePort\<rparr>\<rparr>
      in case startHandshake L inp s3 of
           (s4, Inl e) \<Rightarrow> (handleError (stack_depth inp) e s4, False)
         | (s4, Inr u) \<Rightarrow>
             let s5 = startTimeout (s4\<lparr>state := CONNECTED\<rparr>)
             in (if onConnect s5 then emit OnConnect s5 else s5, True))"

text \<open>
  \<^verbatim>\<open>send\<close> runs in two parts.  The first part runs when \<open>send\<close> is called, up to
  \<^verbatim>\<open>await this._sendProtocolMessage(...)\<close>: it checks the state, takes the sequence
  number and hands the frame to the connection, or throws.  The second part runs when the
  \<^verbatim>\<open>await\<close> resumes: it creates the promise, arms its timer and registers the entry
  under \<^verbatim>\<open>this.sequenceNumber - 1\<close> as the counter then stands.  Other calls may run
  between the two parts.
\<close>

definition send_begin ::
  "library \<Rightarrow> runtime_inputs \<Rightarrow> json \<Rightarrow> protocol \<Rightarrow> protocol \<times> (error + unit)" where
  "send_begin L inp message s =
     (if state s \<noteq> CONNECTED then (s, Inl InvalidState)
      else
        let messageData = JObj [(''type'', JStr ''data''),
                                (''payload'', message),
                                (''timestamp'', JNum (date_now inp))]
        in send_frame L inp MESSAGE_TYPES_DATA messageData s)"

definition send_resume :: "protocol \<Rightarrow> protocol \<times> nat" where
  "send_resume s =
     (let (p, s2) = new_promise s;
          (t, s3) = js_setTimeout s2
      in (s3\<lparr>pendingRequests :=
               (pendingRequests s3)(this_sequenceNumber s3 - 1
                                     \<mapsto> \<lparr>promise = p, timeout = t\<rparr>)\<rparr>,
          p))"

text \<open>A call of \<open>send\<close> with nothing running between its two parts.  It returns the
  promise it created, or the error it threw.\<close>

definition send ::
  "library \<Rightarrow> runtime_inputs \<Rightarrow> json \<Rightarrow> protocol \<Rightarrow> protocol \<times> (error + nat)" where
  "send L inp message s =
     (case send_begin L inp message s of
        (s1, Inl e) \<Rightarrow> (s1, Inl e)
      | (s1, Inr u) \<Rightarrow> (case send_resume s1 of (s2, p) \<Rightarrow> (s2, Inr p)))"

text \<open>The callback of the timer that \<open>send\<close> armed for promise \<open>p\<close>, run when timer
  \<open>t\<close> fires.  It reads \<^verbatim>\<open>this.sequenceNumber\<close> when it runs.\<close>

definition send_timer_fires :: "nat \<Rightarrow> nat \<Rightarrow> protocol \<Rightarrow> protocol" where
  "send_timer_fires p t s =
     (if t \<in> timers s
      then settle p (Rejected AckTimeout)
             ((js_clearTimeout t s)
                \<lparr>pendingRequests := (pendingRequests s)(this_sequenceNumber s - 1 := None)\<rparr>)
      else s)"

definition receive :: "protocol \<Rightarrow> protocol \<times> nat" where
  "receive s =
     (let (p, s1) = new_promise s;
          (t, s2) = js_setTimeout s1
      in (s2\<lparr>messageQueue := messageQueue s2 @ [\<lparr>promise = p, timeout = t\<rparr>]\<rparr>, p))"

definition receive_timer_fires :: "nat \<Rightarrow> nat \<Rightarrow> protocol \<Rightarrow> protocol" where
  "receive_timer_fires p t s =
     (if t \<in> timers s then settle p (Rejected ReceiveTimeout) (js_clearTimeout t s) else s)"

text \<open>The callback of the timer that \<open>startTimeout\<close> armed.\<close>

definition protocol_timer_fires :: "nat \<Rightarrow> nat \<Rightarrow> protocol \<Rightarrow> protocol" where
  "protocol_timer_fires depth t s =
     (if t \<in> timers s then handleError depth ProtocolTimeout (js_clearTimeout t s) else s)"

text \<open>\<open>close\<close> returns how its promise settles: \<open>Inr\<close> when it resolves, \<open>Inl\<close> when
  it rejects.\<close>

definition close ::
  "library \<Rightarrow> runtime_inputs \<Rightarrow> protocol \<Rightarrow> protocol \<times> (error + unit)" where
  "close L inp s =
     (if state s = CLOSED then (s, Inr ())
      else
        let attempt =
          (case send_frame L inp MESSAGE_TYPES_CLOSE
                  (JObj [(''reason'', JStr ''Client disconnect'')]) s of
             (s1, Inl e) \<Rightarrow> (s1, Inl e)
           | (s1, Inr u) \<Rightarrow> (closeConnection (stack_depth inp) s1, Inr ()))
        in case attempt of
             (s', Inr u) \<Rightarrow> (s', Inr ())
           | (s', Inl e) \<Rightarrow> (closeConnection (stack_depth inp) s', Inr ()))"

subsection \<open>Runs of inbound frames\<close>

text \<open>
  A run hands the frames to \<open>processMessage\<close> one after the other.  It returns the
  values that were newly stored in \<^verbatim>\<open>remoteSequenceNumber\<close>, in order, and the final
  state.
\<close>

fun inbound_run ::
  "library \<Rightarrow> (runtime_inputs \<times> bytes) list \<Rightarrow> protocol \<Rightarrow> int list \<times> protocol" where
  "inbound_run L [] s = ([], s)"
| "inbound_run L ((inp, buf) # rest) s =
     (let s' = processMessage L inp buf s;
          (acc, s'') = inbound_run L rest s'
      in ((if remoteSequenceNumber s' \<noteq> remoteSequenceNumber s
           then [remoteSequenceNumber s'] else []) @ acc, s''))"

section \<open>What is assumed of the library\<close>

text \<open>With a 32-byte key and a 12-byte iv the cipher succeeds, its tag has 16 bytes, and
  the decipher returns the plaintext for the same key and iv.\<close>

definition aead_correct :: "library \<Rightarrow> bool" where
  "aead_correct L \<longleftrightarrow>
     (\<forall>key nonce pt. length key = 32 \<and> length nonce = 12 \<longrightarrow>
        (\<exists>ct t. cipher_gcm L key nonce pt = Some (ct, t) \<and> length t = 16
                \<and> decipher_gcm L key nonce ct t = Some pt))"

text \<open>An HMAC-SHA256 digest has 32 bytes.\<close>

definition hmac_length_ok :: "library \<Rightarrow> bool" where
  "hmac_length_ok L \<longleftrightarrow> (\<forall>key d. length (hmac_sha256 L key d) = 32)"

section \<open>A toy library, to run the model on concrete inputs\<close>

definition toy_library :: library where
  "toy_library =
     \<lparr>cipher_gcm = (\<lambda>key nonce pt.
         if length key = 32 \<and> nonce \<noteq> [] then Some (pt, replicate 16 0) else None),
      decipher_gcm = (\<lambda>key nonce ct t.
         if length key = 32 \<and> nonce \<noteq> [] \<and> t = replicate 16 0 then Some ct else None),
      hmac_sha256 = (\<lambda>key d. replicate 32 (of_nat (length d))),
      hkdf_sha256 = (\<lambda>ikm salt info n. replicate n 0),
      diffie_hellman = (\<lambda>priv pub. None),
      json_stringify = (\<lambda>v. Some (case v of
                                    JNull \<Rightarrow> ''null''
                                  | JBool b \<Rightarrow> (if b then ''true'' else ''false'')
                                  | _ \<Rightarrow> ''{}'')),
      json_parse = (\<lambda>t. if t = ''null'' then Some JNull
                        else if t = ''true'' then Some (JBool True)
                        else if t = ''false'' then Some (JBool False)
                        else if t = ''{}'' then Some (JObj [])
                        else None)\<rparr>"

definition toy_inputs :: runtime_inputs where
  "toy_inputs =
     \<lparr>random_bytes_12 = replicate 12 0, random_bytes_32 = replicate 32 0,
      generated_key_pair = \<lparr>publicKey = replicate 32 1, privateKey = replicate 32 2\<rparr>,
      date_now = 0, stack_depth = 3\<rparr>"

definition toy_keys :: session_keys where
  "toy_keys = \<lparr>encryptionKey = replicate 32 0, hmacKey = replicate 32 0\<rparr>"

text \<open>The frame that \<open>createMessage\<close> builds with the toy library, a zero iv and zero
  keys.\<close>

definition toy_frame :: "int \<Rightarrow> int \<Rightarrow> json \<Rightarrow> bytes" where
  "toy_frame T S P =
     (case snd (createMessage toy_library (replicate 12 0) T S P (replicate 32 0)
                  (replicate 32 0)) of
        Inr frame \<Rightarrow> frame
      | Inl e \<Rightarrow> [])"

text \<open>An instance with session keys installed that has accepted sequence number 5.\<close>

definition toy_receiver :: protocol where
  "toy_receiver = new_protocol\<lparr>sessionKeys := Some toy_keys, remoteSequenceNumber := 5\<rparr>"

text \<open>An instance with session keys installed (assigned to the field, as the demonstration
  script does) on which \<open>connect\<close> has run; then the same after two calls of \<open>send\<close>,
  the second called after the first has registered its entry; then after two calls of
  \<open>send\<close> made one right after the other, so that both first parts run before both second
  parts.\<close>

definition toy_session :: protocol where
  "toy_session =
     fst (connect toy_library toy_inputs ''example.com'' 4433 None
            (new_protocol\<lparr>sessionKeys := Some toy_keys\<rparr>))"

definition toy_two_sends :: protocol where
  "toy_two_sends =
     fst (send toy_library toy_inputs (JStr ''b'')
            (fst (send toy_library toy_inputs (JStr ''a'') toy_session)))"

definition toy_overlapping_sends :: protocol where
  "toy_overlapping_sends =
     fst (send_resume
            (fst (send_resume
                    (fst (send_begin toy_library toy_inputs (JStr ''b'')
                            (fst (send_begin toy_library toy_inputs (JStr ''a'')
                                    toy_session)))))))"

text \<open>A new instance with a disconnect handler installed on which \<open>connect\<close> has run.\<close>

definition toy_listening :: protocol where
  "toy_listening =
     fst (connect toy_library toy_inputs ''example.com'' 4433 None
            (new_protocol\<lparr>onDisconnect := True\<rparr>))"

text \<open>A new instance on which \<open>close\<close> has run.\<close>

definition toy_closed :: protocol where
  "toy_closed = fst (close toy_library toy_inputs new_protocol)"

section \<open>Facts about buffers, numbers and the frame codec\<close>


lemma unat_byte_less: "unat (b :: byte) < 256"
  using unsigned_less [of b] by simp

lemma utf8_roundtrip: "buffer_to_utf8 (buffer_from_utf8 s) = s"
  by (induction s) (simp_all add: buffer_to_utf8_def buffer_from_utf8_def unat_of_nat)

lemma utf8_roundtrip': "buffer_from_utf8 (buffer_to_utf8 b) = b"
  by (induction b) (simp_all add: buffer_to_utf8_def buffer_from_utf8_def unat_byte_less)

lemma length_utf8: "length (buffer_from_utf8 s) = length s"
  by (simp add: buffer_from_utf8_def)

lemma hex_value_digit_all: "\<forall>n \<in> set [0..<16]. hex_value (hex_digit n) = Some n"
  by code_simp

lemma hex_value_digit: "n < 16 \<Longrightarrow> hex_value (hex_digit n) = Some n"
  using hex_value_digit_all by simp

lemma from_hex_to_hex: "from_hex (to_hex bs) = bs"
proof (induction bs)
  case Nil show ?case by simp
next
  case (Cons b bs)
  have eq: "16 * (unat b div 16) + unat b mod 16 = unat b" by presburger
  have hi: "unat b div 16 < 16" using unat_byte_less [of b] by simp
  show ?case using Cons by (simp add: hex_value_digit hi eq)
qed

lemma even_length_to_hex: "even (length (to_hex bs))"
  by (induction bs) simp_all

lemma length_be_bytes: "length (be_bytes n v) = n"
  by (induction n) simp_all

lemma be_value_be_bytes: "be_value (be_bytes n v) = v mod 256 ^ n"
proof (induction n)
  case 0 show ?case by simp
next
  case (Suc n)
  have a: "unat (of_nat (v div 256 ^ n) :: byte) = (v div 256 ^ n) mod 256"
    by (simp add: unat_of_nat)
  have b: "v mod (256 ^ n * 256) = 256 ^ n * (v div 256 ^ n mod 256) + v mod 256 ^ n"
    by (rule mod_mult2_eq)
  have "be_value (be_bytes (Suc n) v) = (v div 256 ^ n) mod 256 * 256 ^ n + v mod 256 ^ n"
    using Suc a by (simp add: length_be_bytes)
  also have "\<dots> = v mod 256 ^ Suc n"
    using b by (simp add: mult.commute)
  finally show ?case .
qed

lemma bit_length_le: "n < 2 ^ k \<Longrightarrow> bit_length n \<le> k"
proof (induction k arbitrary: n)
  case 0 then show ?case by (simp add: bit_length.simps)
next
  case (Suc k)
  then have "n div 2 < 2 ^ k" by simp
  then have "bit_length (n div 2) \<le> k" by (rule Suc.IH)
  then show ?case by (subst bit_length.simps) simp
qed

lemma bit_length_eq: "2 ^ k \<le> n \<Longrightarrow> n < 2 ^ Suc k \<Longrightarrow> bit_length n = Suc k"
proof (induction k arbitrary: n)
  case 0
  then have "n = Suc 0" by simp
  then show ?case by (simp add: bit_length.simps [of "Suc 0"] bit_length.simps [of 0])
next
  case (Suc k)
  from Suc.prems have lo: "2 ^ k \<le> n div 2" and hi: "n div 2 < 2 ^ Suc k" and nz: "n \<noteq> 0"
    by auto
  have "bit_length (n div 2) = Suc k" using lo hi by (rule Suc.IH)
  then show ?case using nz by (subst bit_length.simps) simp
qed

lemma number_of_bigint_exact: "n \<le> 2 ^ 53 \<Longrightarrow> number_of_bigint n = n"
proof (cases "n < 2 ^ 53")
  case True
  then have "bit_length n \<le> 53" by (rule bit_length_le)
  then show ?thesis by (simp add: number_of_bigint_def)
next
  case False
  assume "n \<le> 2 ^ 53"
  with False have n: "n = 2 ^ 53" by simp
  have "bit_length n = Suc 53" by (rule bit_length_eq) (simp_all add: n)
  then show ?thesis by (simp add: number_of_bigint_def Let_def n)
qed

lemma number_of_bigint_rounds: "number_of_bigint (2 ^ 53 + 1) = 2 ^ 53"
proof -
  have "bit_length (2 ^ 53 + 1) = Suc 53" by (rule bit_length_eq) simp_all
  then show ?thesis by (simp add: number_of_bigint_def Let_def)
qed

lemma slices:
  assumes "74 \<le> length buf"
  shows "buffer_slice buf 0 14 = take 14 buf"
    and "buffer_slice buf 14 26 = take 12 (drop 14 buf)"
    and "buffer_slice buf 26 (- 48) = take (length buf - 74) (drop 26 buf)"
    and "buffer_slice buf (- 48) (- 32) = take 16 (drop (length buf - 48) buf)"
    and "buffer_slice_from buf (- 32) = drop (length buf - 32) buf"
    and "buffer_slice buf 0 (- 32) = take (length buf - 32) buf"
  using assms by (auto simp: buffer_slice_def buffer_slice_from_def Let_def nat_diff_distrib min_def max_def)

lemma parse_short: "length buf < 74 \<Longrightarrow> parseMessage L buf ek mk = ([], Inl MessageTooShort)"
  by (simp add: parseMessage_def)

lemma verifyHMAC_eq:
  "verifyHMAC L d k m = ([CreateHmac k d],
     if length (hmac_sha256 L k d) \<noteq> length m then Inl RangeError else Inr (hmac_sha256 L k d = m))"
  by (simp add: verifyHMAC_def generateHMAC_def)

lemma parseMessageHeader_take14:
  "14 \<le> length buf \<Longrightarrow> \<exists>h. parseMessageHeader (take 14 buf) = Inr h"
  by (simp add: parseMessageHeader_def)

lemma parse_long:
  assumes "74 \<le> length buf"
  shows "parseMessage L buf ek mk =
     (let n = length buf; d = take (n - 32) buf; m = drop (n - 32) buf in
      if length (hmac_sha256 L mk d) \<noteq> 32 then ([CreateHmac mk d], Inl RangeError)
      else if hmac_sha256 L mk d \<noteq> m then ([CreateHmac mk d], Inl HMACVerificationFailed)
      else case parseMessageHeader (take 14 buf) of
             Inl e \<Rightarrow> ([CreateHmac mk d], Inl e)
           | Inr h \<Rightarrow>
              ([CreateHmac mk d,
                CreateDecipheriv ek (take 12 (drop 14 buf)) (take (n - 74) (drop 26 buf))
                  (take 16 (drop (n - 48) buf))],
               case decipher_gcm L ek (take 12 (drop 14 buf)) (take (n - 74) (drop 26 buf))
                      (take 16 (drop (n - 48) buf)) of
                 None \<Rightarrow> Inl DecipherError
               | Some pt \<Rightarrow> (case json_parse L (buffer_to_utf8 pt) of
                              None \<Rightarrow> Inl SyntaxError
                            | Some p \<Rightarrow> Inr \<lparr>header = h, payload = p\<rparr>)))"
proof -
  have len: "\<not> length buf < 14 + 12 + 16 + 32" using assms by simp
  have lm: "length (drop (length buf - 32) buf) = 32" using assms by simp
  show ?thesis
    unfolding parseMessage_def
    by (simp only: len if_False slices [OF assms] verifyHMAC_eq decrypt_def from_hex_to_hex Let_def lm)
       (auto simp: even_length_to_hex split: sum.splits option.splits)
qed



lemma createMessageHeader_ok:
  assumes "0 \<le> T" "T \<le> 255" "0 \<le> S" "S < 2 ^ 64" "n < 2 ^ 32"
  shows "createMessageHeader T S n = Inr (of_int VERSION # of_int T # be_bytes 8 (nat S) @ be_bytes 4 n)"
  using assms by (simp add: createMessageHeader_def)

lemma parseMessageHeader_created:
  assumes "0 \<le> T" "T \<le> 255" "0 \<le> S" "S < 2 ^ 64" "n < 2 ^ 32"
  shows "parseMessageHeader (of_int VERSION # of_int T # be_bytes 8 (nat S) @ be_bytes 4 n) =
     Inr \<lparr>version = 1, messageType = T, sequenceNumber = int (number_of_bigint (nat S)),
          payloadLength = int n\<rparr>"
proof -
  have t: "uint (of_int T :: byte) = T"
    using assms by (simp add: uint_word_of_int)
  have s: "nat S mod 256 ^ 8 = nat S"
    using assms by (simp add: nat_less_iff)
  have n: "n mod 256 ^ 4 = n" using assms by simp
  have l8: "length (be_bytes 8 (nat S)) = 8" by (rule length_be_bytes)
  have l4: "length (be_bytes 4 n) = 4" by (rule length_be_bytes)
  have sv: "be_value (be_bytes 8 (nat S)) = nat S"
    using be_value_be_bytes [of 8 "nat S"] s by simp
  have nv: "be_value (be_bytes 4 n) = n"
    using be_value_be_bytes [of 4 n] n by simp
  have d2: "take 8 (drop 2 (of_int VERSION # of_int T # be_bytes 8 (nat S) @ be_bytes 4 n))
              = be_bytes 8 (nat S)"
    using l8 by simp
  have d10: "take 4 (drop 10 (of_int VERSION # of_int T # be_bytes 8 (nat S) @ be_bytes 4 n))
              = be_bytes 4 n"
    using l8 l4 by simp
  show ?thesis
    unfolding parseMessageHeader_def d2 d10 sv nv
    using l8 l4 t by (simp add: VERSION_def)
qed

lemma createMessage_ok:
  assumes str: "json_stringify L P = Some text"
    and hdr: "createMessageHeader T S (length text) = Inr h"
    and enc: "cipher_gcm L ek riv (buffer_from_utf8 text) = Some (ct, t)"
  shows "createMessage L riv T S P ek mk =
     ([CreateCipheriv ek riv (buffer_from_utf8 text), CreateHmac mk (h @ riv @ ct @ t)],
      Inr (h @ riv @ ct @ t @ hmac_sha256 L mk (h @ riv @ ct @ t)))"
  using assms
  by (simp add: createMessage_def encrypt_def generateHMAC_def utf8_roundtrip length_utf8
      from_hex_to_hex Let_def)

lemma roundtrip_general:
  assumes aead: "aead_correct L" and hm: "hmac_length_ok L"
    and str: "json_stringify L P = Some text" and prs: "json_parse L text = Some P"
    and len: "length text < 2 ^ 32"
    and T: "0 \<le> T" "T \<le> 255" and S: "0 \<le> S" "S < 2 ^ 64"
    and ek: "length ek = 32" and riv: "length riv = 12"
  shows "\<exists>frame. snd (createMessage L riv T S P ek mk) = Inr frame \<and>
           snd (parseMessage L frame ek mk) =
             Inr \<lparr>header = \<lparr>version = 1, messageType = T,
                             sequenceNumber = int (number_of_bigint (nat S)),
                             payloadLength = int (length text)\<rparr>,
                  payload = P\<rparr>"
proof -
  define h where "h = of_int VERSION # of_int T # be_bytes 8 (nat S) @ be_bytes 4 (length text)"
  have hc: "createMessageHeader T S (length text) = Inr h"
    unfolding h_def using T S len by (rule createMessageHeader_ok)
  have hp: "parseMessageHeader h = Inr \<lparr>version = 1, messageType = T,
       sequenceNumber = int (number_of_bigint (nat S)), payloadLength = int (length text)\<rparr>"
    unfolding h_def using T S len by (rule parseMessageHeader_created)
  have hl: "length h = 14" by (simp add: h_def length_be_bytes)
  from aead ek riv obtain ct t where
    c: "cipher_gcm L ek riv (buffer_from_utf8 text) = Some (ct, t)" and tl: "length t = 16"
    and d: "decipher_gcm L ek riv ct t = Some (buffer_from_utf8 text)"
    unfolding aead_correct_def by blast
  define body where "body = h @ riv @ ct @ t"
  define mac where "mac = hmac_sha256 L mk body"
  define frame where "frame = body @ mac"
  have ml: "length mac = 32" using hm by (simp add: mac_def hmac_length_ok_def)
  have bl: "length body = 42 + length ct" by (simp add: body_def hl riv tl)
  have cm: "snd (createMessage L riv T S P ek mk) = Inr frame"
    using createMessage_ok [OF str hc c, of mk] by (simp add: frame_def mac_def body_def)
  have fl: "length frame = 74 + length ct" by (simp add: frame_def bl ml)
  then have f74: "74 \<le> length frame" by simp
  have p1: "take (length frame - 32) frame = body" by (simp add: frame_def ml)
  have p2: "drop (length frame - 32) frame = mac" by (simp add: frame_def ml)
  have p3: "take 14 frame = h" by (simp add: frame_def body_def hl)
  have p4: "take 12 (drop 14 frame) = riv" by (simp add: frame_def body_def hl riv)
  have n74: "length frame - 74 = length ct" using fl by simp
  have n48: "length frame - 48 = 26 + length ct" using fl by simp
  have p5: "take (length frame - 74) (drop 26 frame) = ct"
    unfolding n74 by (simp add: frame_def body_def hl riv)
  have p6: "take 16 (drop (length frame - 48) frame) = t"
    unfolding n48 by (simp add: frame_def body_def hl riv tl)
  have "snd (parseMessage L frame ek mk) =
      Inr \<lparr>header = \<lparr>version = 1, messageType = T,
                      sequenceNumber = int (number_of_bigint (nat S)),
                      payloadLength = int (length text)\<rparr>,
           payload = P\<rparr>"
    unfolding parse_long [OF f74] Let_def p1 p2 p3 p4 p5 p6 hp
    using ml d prs by (simp add: mac_def [symmetric] utf8_roundtrip)
  with cm show ?thesis by blast
qed

lemma toy_aead_correct: "aead_correct toy_library"
  by (auto simp: aead_correct_def toy_library_def)

lemma toy_hmac_length_ok: "hmac_length_ok toy_library"
  by (simp add: hmac_length_ok_def toy_library_def)

lemma buffer_slice_prefix: "0 \<le> k \<Longrightarrow> buffer_slice buf 0 k = take (nat k) buf"
  by (auto simp: buffer_slice_def Let_def min_def)

lemma buffer_slice_from_suffix: "0 \<le> k \<Longrightarrow> buffer_slice_from buf k = drop (nat k) buf"
  by (auto simp: buffer_slice_def buffer_slice_from_def Let_def min_def nat_diff_distrib)

text \<open>
  C7.  \<open>deriveKeys\<close> is a function of the shared secret, the salt and the info alone: equal
  inputs give equal session keys.  Its result is the 64-byte HKDF-SHA256 expansion of the
  secret, split so that the first 32 bytes are the encryption key and the last 32 bytes
  are the HMAC key.
\<close>

theorem deriveKeys_deterministic_split:
  "(secret = secret' \<and> salt = salt' \<and> info = info'
      \<longrightarrow> deriveKeys L secret salt info = deriveKeys L secret' salt' info')
   \<and> encryptionKey (deriveKeys L secret salt info) = take 32 (hkdf_sha256 L secret salt info 64)
   \<and> hmacKey (deriveKeys L secret salt info) = drop 32 (hkdf_sha256 L secret salt info 64)
   \<and> (length (hkdf_sha256 L secret salt info 64) = 64 \<longrightarrow>
        length (encryptionKey (deriveKeys L secret salt info)) = 32
        \<and> length (hmacKey (deriveKeys L secret salt info)) = 32
        \<and> encryptionKey (deriveKeys L secret salt info) @ hmacKey (deriveKeys L secret salt info)
            = hkdf_sha256 L secret salt info 64)"
  by (simp add: deriveKeys_def Let_def KEY_LENGTH_def buffer_slice_prefix buffer_slice_from_suffix)

theorem deriveKeys_deterministic_split_witness:
  "deriveKeys toy_library [1, 2, 3] SALT INFO = deriveKeys toy_library [1, 2, 3] SALT INFO
   \<and> encryptionKey (deriveKeys toy_library [1, 2, 3] SALT INFO) = replicate 32 0
   \<and> hmacKey (deriveKeys toy_library [1, 2, 3] SALT INFO) = replicate 32 0
   \<and> length (encryptionKey (deriveKeys toy_library [1, 2, 3] SALT INFO)) = 32
   \<and> length (hmacKey (deriveKeys toy_library [1, 2, 3] SALT INFO)) = 32"
  using deriveKeys_deterministic_split [of "[1, 2, 3]" "[1, 2, 3]" SALT SALT INFO INFO toy_library]
  by (simp add: toy_library_def)

text \<open>
  C9.  A buffer shorter than 74 bytes fails with \<open>MessageTooShort\<close> before any call into
  the crypto library.  A buffer of at least 74 bytes is split at fixed offsets: the HMAC is
  computed over all bytes but the last 32 and compared with the last 32, and when it
  verifies the decipher is called with the iv at bytes 14 to 26, the tag in the 16 bytes
  before the HMAC and the ciphertext in between.
\<close>

theorem parseMessage_minimum_length_and_split:
  "(length buf < 74 \<longrightarrow> parseMessage L buf encKey macKey = ([], Inl MessageTooShort))
   \<and> (74 \<le> length buf \<longrightarrow>
        (\<exists>more. fst (parseMessage L buf encKey macKey)
                  = CreateHmac macKey (take (length buf - 32) buf) # more)
        \<and> (hmac_sha256 L macKey (take (length buf - 32) buf) = drop (length buf - 32) buf \<longrightarrow>
             fst (parseMessage L buf encKey macKey)
               = [CreateHmac macKey (take (length buf - 32) buf),
                  CreateDecipheriv encKey (take 12 (drop 14 buf))
                    (take (length buf - 74) (drop 26 buf))
                    (take 16 (drop (length buf - 48) buf))]))"
proof (intro conjI impI)
  assume "length buf < 74"
  then show "parseMessage L buf encKey macKey = ([], Inl MessageTooShort)" by (rule parse_short)
next
  assume l: "74 \<le> length buf"
  show "\<exists>more. fst (parseMessage L buf encKey macKey)
                  = CreateHmac macKey (take (length buf - 32) buf) # more"
    unfolding parse_long [OF l] by (simp add: Let_def split: sum.splits)
next
  assume l: "74 \<le> length buf"
    and v: "hmac_sha256 L macKey (take (length buf - 32) buf) = drop (length buf - 32) buf"
  obtain h where h: "parseMessageHeader (take 14 buf) = Inr h"
    using parseMessageHeader_take14 [of buf] l by auto
  have "length (drop (length buf - 32) buf) = 32" using l by simp
  then have "length (hmac_sha256 L macKey (take (length buf - 32) buf)) = 32" using v by simp
  then show "fst (parseMessage L buf encKey macKey)
               = [CreateHmac macKey (take (length buf - 32) buf),
                  CreateDecipheriv encKey (take 12 (drop 14 buf))
                    (take (length buf - 74) (drop 26 buf))
                    (take 16 (drop (length buf - 48) buf))]"
    unfolding parse_long [OF l] using v h by (simp add: Let_def)
qed

theorem parseMessage_minimum_length_and_split_witness:
  "parseMessage toy_library (replicate 73 0) (replicate 32 0) (replicate 32 0)
     = ([], Inl MessageTooShort)
   \<and> fst (parseMessage toy_library (replicate 42 7 @ replicate 32 42) (replicate 32 0)
            (replicate 32 0))
     = [CreateHmac (replicate 32 0) (replicate 42 7),
        CreateDecipheriv (replicate 32 0) (replicate 12 7) [] (replicate 16 7)]"
proof -
  have a: "length (replicate 73 (0::byte)) < 74" by simp
  have b: "74 \<le> length (replicate 42 (7::byte) @ replicate 32 42)" by simp
  have c: "hmac_sha256 toy_library (replicate 32 0)
             (take (length (replicate 42 (7::byte) @ replicate 32 42) - 32)
                (replicate 42 7 @ replicate 32 42))
           = drop (length (replicate 42 (7::byte) @ replicate 32 42) - 32)
               (replicate 42 7 @ replicate 32 42)"
    by (simp add: toy_library_def)
  show ?thesis
    using parseMessage_minimum_length_and_split
        [of "replicate 73 0" toy_library "replicate 32 0" "replicate 32 0"]
      parseMessage_minimum_length_and_split
        [of "replicate 42 7 @ replicate 32 42" toy_library "replicate 32 0" "replicate 32 0"]
      a b c
    by (simp add: min_def)
qed

text \<open>
  C3.  For a buffer of at least 74 bytes and a library whose HMAC digests have 32 bytes, the
  first call into the crypto library is the HMAC over all bytes before the trailing 32;
  when that digest differs from the trailing 32 bytes, \<open>parseMessage\<close> fails with
  \<open>HMACVerificationFailed\<close> and the HMAC is the only call it made: the decipher is never
  invoked.
\<close>

theorem parseMessage_verify_then_decrypt:
  assumes "hmac_length_ok L" and "74 \<le> length buf"
  shows "(\<exists>more. fst (parseMessage L buf encKey macKey)
                  = CreateHmac macKey (take (length buf - 32) buf) # more)
   \<and> (hmac_sha256 L macKey (take (length buf - 32) buf) \<noteq> drop (length buf - 32) buf \<longrightarrow>
        parseMessage L buf encKey macKey
          = ([CreateHmac macKey (take (length buf - 32) buf)], Inl HMACVerificationFailed)
        \<and> (\<forall>k n c t. CreateDecipheriv k n c t \<notin> set (fst (parseMessage L buf encKey macKey))))"
proof -
  have len: "length (hmac_sha256 L macKey (take (length buf - 32) buf)) = 32"
    using assms(1) by (simp add: hmac_length_ok_def)
  show ?thesis
    unfolding parse_long [OF assms(2)] using len
    by (simp add: Let_def split: sum.splits)
qed

theorem parseMessage_verify_then_decrypt_witness:
  "parseMessage toy_library (replicate 74 0) (replicate 32 0) (replicate 32 0)
     = ([CreateHmac (replicate 32 0) (replicate 42 0)], Inl HMACVerificationFailed)"
proof -
  have b: "74 \<le> length (replicate 74 (0::byte))" by simp
  have c: "hmac_sha256 toy_library (replicate 32 0)
             (take (length (replicate 74 (0::byte)) - 32) (replicate 74 0))
           \<noteq> drop (length (replicate 74 (0::byte)) - 32) (replicate 74 0)"
    by (simp add: toy_library_def)
  show ?thesis
    using parseMessage_verify_then_decrypt [OF toy_hmac_length_ok b, of "replicate 32 0" "replicate 32 0"] c
    by (simp add: min_def)
qed

text \<open>
  C1.  Frame round trip.  For a library whose cipher and HMAC behave as assumed, a payload
  that \<^verbatim>\<open>JSON.stringify\<close> serializes (to less than \<open>2^32\<close> bytes) and \<^verbatim>\<open>JSON.parse\<close>
  reads back, each of the five message types, a sequence number in the range of an
  unsigned 64-bit integer, a 32-byte encryption key and a 12-byte random iv:
  \<open>createMessage\<close> returns a frame and \<open>parseMessage\<close> of that frame succeeds with
  version 1, the message type, the byte length of the serialized payload and the payload.
  The sequence number comes back as \<^verbatim>\<open>Number(...)\<close> of the 64-bit value: it is the
  number that went in when that is at most \<open>2^53\<close>, and the nearest double otherwise.
\<close>

theorem createMessage_parseMessage_roundtrip:
  assumes "aead_correct L" and "hmac_length_ok L"
    and "json_stringify L P = Some text" and "json_parse L text = Some P"
    and "length text < 2 ^ 32"
    and "T \<in> {MESSAGE_TYPES_HANDSHAKE_INIT, MESSAGE_TYPES_HANDSHAKE_RESPONSE,
               MESSAGE_TYPES_DATA, MESSAGE_TYPES_ACK, MESSAGE_TYPES_CLOSE}"
    and "0 \<le> S" and "S < 2 ^ 64"
    and "length encKey = 32" and "length nonce = 12"
  shows "\<exists>frame. snd (createMessage L nonce T S P encKey macKey) = Inr frame \<and>
           snd (parseMessage L frame encKey macKey) =
             Inr \<lparr>header = \<lparr>version = 1, messageType = T,
                             sequenceNumber =
                               (if S \<le> 2 ^ 53 then S else int (number_of_bigint (nat S))),
                             payloadLength = int (length text)\<rparr>,
                  payload = P\<rparr>"
proof -
  have T: "0 \<le> T" "T \<le> 255"
    using assms(6)
    by (auto simp: MESSAGE_TYPES_HANDSHAKE_INIT_def MESSAGE_TYPES_HANDSHAKE_RESPONSE_def
        MESSAGE_TYPES_DATA_def MESSAGE_TYPES_ACK_def MESSAGE_TYPES_CLOSE_def)
  have "S \<le> 2 ^ 53 \<Longrightarrow> int (number_of_bigint (nat S)) = S"
  proof -
    assume "S \<le> 2 ^ 53"
    then have "nat S \<le> 2 ^ 53" using assms(7) by (simp add: nat_le_iff)
    then have "number_of_bigint (nat S) = nat S" by (rule number_of_bigint_exact)
    then show ?thesis using assms(7) by simp
  qed
  then have "(if S \<le> 2 ^ 53 then S else int (number_of_bigint (nat S)))
               = int (number_of_bigint (nat S))"
    by simp
  then show ?thesis
    using roundtrip_general [OF assms(1-5) T assms(7-10), of macKey] by simp
qed

theorem createMessage_parseMessage_roundtrip_witness:
  "\<exists>frame. snd (createMessage toy_library (replicate 12 0) MESSAGE_TYPES_DATA 7 JNull
                   (replicate 32 0) (replicate 32 0)) = Inr frame \<and>
           snd (parseMessage toy_library frame (replicate 32 0) (replicate 32 0)) =
             Inr \<lparr>header = \<lparr>version = 1, messageType = MESSAGE_TYPES_DATA,
                             sequenceNumber = 7, payloadLength = 4\<rparr>,
                  payload = JNull\<rparr>"
proof -
  have a: "json_stringify toy_library JNull = Some ''null''" by (simp add: toy_library_def)
  have b: "json_parse toy_library ''null'' = Some JNull" by (simp add: toy_library_def)
  have c: "length ''null'' < 2 ^ 32" by simp
  have d: "MESSAGE_TYPES_DATA \<in> {MESSAGE_TYPES_HANDSHAKE_INIT, MESSAGE_TYPES_HANDSHAKE_RESPONSE,
               MESSAGE_TYPES_DATA, MESSAGE_TYPES_ACK, MESSAGE_TYPES_CLOSE}" by simp
  have e: "(0::int) \<le> 7" "(7::int) < 2 ^ 64" by simp_all
  have f: "length (replicate 32 (0::byte)) = 32" "length (replicate 12 (0::byte)) = 12"
    by simp_all
  show ?thesis
    using createMessage_parseMessage_roundtrip
      [OF toy_aead_correct toy_hmac_length_ok a b c d e f, of "replicate 32 0"]
    by simp
qed

lemma be_bytes_8:
  "be_bytes 8 v = [of_nat (v div 72057594037927936), of_nat (v div 281474976710656),
     of_nat (v div 1099511627776), of_nat (v div 4294967296), of_nat (v div 16777216),
     of_nat (v div 65536), of_nat (v div 256), of_nat v]"
proof -
  have e: "(8::nat) = Suc (Suc (Suc (Suc (Suc (Suc (Suc (Suc 0)))))))" by simp
  show ?thesis unfolding e by simp
qed

lemma be_bytes_4:
  "be_bytes 4 v = [of_nat (v div 16777216), of_nat (v div 65536), of_nat (v div 256), of_nat v]"
proof -
  have e: "(4::nat) = Suc (Suc (Suc (Suc 0)))" by simp
  show ?thesis unfolding e by simp
qed

lemma toy_big_frame:
  "createMessage toy_library (replicate 12 0) MESSAGE_TYPES_DATA (2 ^ 53 + 1) JNull
     (replicate 32 0) (replicate 32 0)
   = ([CreateCipheriv (replicate 32 0) (replicate 12 0) (buffer_from_utf8 ''null''),
       CreateHmac (replicate 32 0)
         ([1, 3, 0, 32, 0, 0, 0, 0, 0, 1, 0, 0, 0, 4] @ replicate 12 0
            @ buffer_from_utf8 ''null'' @ replicate 16 0)],
      Inr ([1, 3, 0, 32, 0, 0, 0, 0, 0, 1, 0, 0, 0, 4] @ replicate 12 0
             @ buffer_from_utf8 ''null'' @ replicate 16 0 @ replicate 32 46))"
proof -
  have a: "json_stringify toy_library JNull = Some ''null''" by (simp add: toy_library_def)
  have h: "createMessageHeader MESSAGE_TYPES_DATA (2 ^ 53 + 1) (length ''null'')
             = Inr [1, 3, 0, 32, 0, 0, 0, 0, 0, 1, 0, 0, 0, 4]"
    by (simp add: createMessageHeader_def MESSAGE_TYPES_DATA_def VERSION_def
        be_bytes_8 be_bytes_4)
  have c: "cipher_gcm toy_library (replicate 32 0) (replicate 12 0) (buffer_from_utf8 ''null'')
             = Some (buffer_from_utf8 ''null'', replicate 16 0)"
    by (simp add: toy_library_def)
  have m: "hmac_sha256 toy_library (replicate 32 0)
             ([1, 3, 0, 32, 0, 0, 0, 0, 0, 1, 0, 0, 0, 4] @ replicate 12 0
                @ buffer_from_utf8 ''null'' @ replicate 16 0) = replicate 32 46"
    by (simp add: toy_library_def length_utf8)
  show ?thesis
    using createMessage_ok [OF a h c, of "replicate 32 0"] m by simp
qed

theorem roundtrip_sequence_counterexample:
  "snd (createMessage toy_library (replicate 12 0) MESSAGE_TYPES_DATA (2 ^ 53 + 1) JNull
          (replicate 32 0) (replicate 32 0))
     = Inr ([1, 3, 0, 32, 0, 0, 0, 0, 0, 1, 0, 0, 0, 4] @ replicate 12 0
              @ buffer_from_utf8 ''null'' @ replicate 16 0 @ replicate 32 46)
   \<and> snd (parseMessage toy_library
            ([1, 3, 0, 32, 0, 0, 0, 0, 0, 1, 0, 0, 0, 4] @ replicate 12 0
               @ buffer_from_utf8 ''null'' @ replicate 16 0 @ replicate 32 46)
            (replicate 32 0) (replicate 32 0))
     = Inr \<lparr>header = \<lparr>version = 1, messageType = MESSAGE_TYPES_DATA,
                     sequenceNumber = 2 ^ 53, payloadLength = 4\<rparr>,
          payload = JNull\<rparr>
   \<and> (2 ^ 53 :: int) \<noteq> 2 ^ 53 + 1"
proof -
  have a: "json_stringify toy_library JNull = Some ''null''" by (simp add: toy_library_def)
  have b: "json_parse toy_library ''null'' = Some JNull" by (simp add: toy_library_def)
  have c: "length ''null'' < 2 ^ 32" by simp
  have T: "0 \<le> MESSAGE_TYPES_DATA" "MESSAGE_TYPES_DATA \<le> 255"
    by (simp_all add: MESSAGE_TYPES_DATA_def)
  have e: "(0::int) \<le> 2 ^ 53 + 1" "(2 ^ 53 + 1 ::int) < 2 ^ 64" by simp_all
  have f: "length (replicate 32 (0::byte)) = 32" "length (replicate 12 (0::byte)) = 12"
    by simp_all
  have n: "int (number_of_bigint (nat (2 ^ 53 + 1))) = 2 ^ 53"
  proof -
    have "nat (2 ^ 53 + 1) = (2 ^ 53 + 1 :: nat)" by simp
    then show ?thesis using number_of_bigint_rounds by simp
  qed
  obtain frame where
    cm: "snd (createMessage toy_library (replicate 12 0) MESSAGE_TYPES_DATA (2 ^ 53 + 1) JNull
               (replicate 32 0) (replicate 32 0)) = Inr frame"
    and pm: "snd (parseMessage toy_library frame (replicate 32 0) (replicate 32 0)) =
       Inr \<lparr>header = \<lparr>version = 1, messageType = MESSAGE_TYPES_DATA,
                       sequenceNumber = int (number_of_bigint (nat (2 ^ 53 + 1))),
                       payloadLength = int (length ''null'')\<rparr>,
            payload = JNull\<rparr>"
    using roundtrip_general [OF toy_aead_correct toy_hmac_length_ok a b c T e f, of "replicate 32 0"]
    by blast
  have fr: "frame = [1, 3, 0, 32, 0, 0, 0, 0, 0, 1, 0, 0, 0, 4] @ replicate 12 0
              @ buffer_from_utf8 ''null'' @ replicate 16 0 @ replicate 32 46"
    using cm unfolding toy_big_frame by simp
  show ?thesis
    using pm unfolding n fr toy_big_frame by simp
qed

section \<open>Facts about the connection\<close>

lemma clearTimeout_eq:
  "clearTimeout s =
     s\<lparr>timers := (case timeoutId s of Some t \<Rightarrow> timers s - {t} | None \<Rightarrow> timers s),
       timeoutId := None\<rparr>"
  by (cases "timeoutId s") (simp_all add: clearTimeout_def js_clearTimeout_def)

text \<open>\<open>closeConnection\<close> in closed form: with a connection present the disconnect handler
  runs once for every nested call that fits on the stack, and once for the outermost.\<close>

lemma closeConnection_eq:
  "closeConnection depth s =
     (clearTimeout (s\<lparr>state := CLOSED\<rparr>))
       \<lparr>connection := None,
        events := events s @ (if onDisconnect s
                              then replicate (if connection s = None then 1 else Suc depth)
                                     OnDisconnect
                              else [])\<rparr>"
proof (induction depth arbitrary: s)
  case 0
  have "connection s = None \<Longrightarrow> s\<lparr>connection := None\<rparr> = s" by (cases s) simp
  then show ?case
    by (subst closeConnection.simps)
       (auto simp: Let_def clearTimeout_eq emit_def split: option.splits)
next
  case (Suc d)
  have n: "connection s = None \<Longrightarrow> s\<lparr>connection := None\<rparr> = s" by (cases s) simp
  show ?case
  proof (cases "connection s")
    case None
    then show ?thesis
      using n
      by (subst closeConnection.simps)
         (auto simp: Let_def clearTimeout_eq emit_def split: option.splits)
  next
    case (Some c)
    then show ?thesis
      by (subst closeConnection.simps)
         (simp add: Let_def Suc.IH clearTimeout_eq emit_def replicate_append_same)
  qed
qed

lemma handleError_eq:
  "handleError depth e s =
     (if state s = CLOSED
      then s\<lparr>events := events s @ (if onError s then [OnError e] else [])\<rparr>
      else closeConnection depth
             (s\<lparr>events := events s @ (if onError s then [OnError e] else [])\<rparr>))"
  by (simp add: handleError_def Let_def emit_def)

lemma sendProtocolMessage_eq:
  "sendProtocolMessage message s =
     (if connection s = None then (s, Inl NoConnectionAvailable)
      else (s\<lparr>events := events s @ [SendData message]\<rparr>, Inr ()))"
  by (simp add: sendProtocolMessage_def sendData_def emit_def split: option.splits)

text \<open>What \<open>send_frame\<close> can change: the counter and the trace.\<close>

lemma send_frame_eq:
  "send_frame L inp mtype body s =
     (case sessionKeys s of
        None \<Rightarrow> (s\<lparr>this_sequenceNumber := this_sequenceNumber s + 1\<rparr>, Inl TypeError)
      | Some keys \<Rightarrow>
          (case snd (createMessage L (random_bytes_12 inp) mtype (this_sequenceNumber s) body
                       (encryptionKey keys) (hmacKey keys)) of
             Inl e \<Rightarrow> (s\<lparr>this_sequenceNumber := this_sequenceNumber s + 1\<rparr>, Inl e)
           | Inr message \<Rightarrow>
               if connection s = None
               then (s\<lparr>this_sequenceNumber := this_sequenceNumber s + 1\<rparr>,
                     Inl NoConnectionAvailable)
               else (s\<lparr>this_sequenceNumber := this_sequenceNumber s + 1,
                        events := events s @ [SendData message]\<rparr>, Inr ())))"
  by (auto simp: send_frame_def Let_def sendProtocolMessage_eq split: option.splits sum.splits)

lemma send_frame_without_keys:
  "sessionKeys s = None \<Longrightarrow>
     send_frame L inp mtype body s
       = (s\<lparr>this_sequenceNumber := this_sequenceNumber s + 1\<rparr>, Inl TypeError)"
  by (simp add: send_frame_eq)

lemma send_frame_result:
  "send_frame L inp mtype body s = (s', r) \<Longrightarrow>
     (\<exists>ev. s' = s\<lparr>this_sequenceNumber := this_sequenceNumber s + 1, events := events s @ ev\<rparr>
          \<and> (r = Inr () \<longrightarrow> connection s \<noteq> None))"
proof -
  assume a: "send_frame L inp mtype body s = (s', r)"
  have e: "s\<lparr>this_sequenceNumber := this_sequenceNumber s + 1\<rparr>
             = s\<lparr>this_sequenceNumber := this_sequenceNumber s + 1, events := events s @ []\<rparr>"
    by simp
  from a show ?thesis
    unfolding send_frame_eq
    by (auto split: option.splits sum.splits if_splits intro: exI [of _ "[]"])
qed

lemma settle_eq:
  "settle p out s =
     s\<lparr>promises := (if promises s p = Some Pending then (promises s)(p \<mapsto> out) else promises s)\<rparr>"
  by (simp add: settle_def split: option.splits outcome.splits)

lemma startTimeout_eq:
  "startTimeout s =
     s\<lparr>timers := insert (next_id s)
                   (case timeoutId s of Some t \<Rightarrow> timers s - {t} | None \<Rightarrow> timers s),
       timeoutId := Some (next_id s), next_id := next_id s + 1\<rparr>"
  by (simp add: startTimeout_def js_setTimeout_def clearTimeout_eq)

text \<open>No handler touches \<^verbatim>\<open>remoteSequenceNumber\<close> or the connection; the state changes
  only where the ACK of the handshake could be sent.\<close>

lemma handleHandshakeResponse_keeps:
  assumes "handleHandshakeResponse L inp md s = (s', r)"
  shows "remoteSequenceNumber s' = remoteSequenceNumber s \<and> connection s' = connection s
         \<and> (state s' = state s \<or> connection s \<noteq> None)"
proof -
  have *: "\<And>b x s3 r3. send_frame L inp MESSAGE_TYPES_ACK b x = (s3, r3) \<Longrightarrow>
          remoteSequenceNumber s3 = remoteSequenceNumber x \<and> connection s3 = connection x
          \<and> state s3 = state x \<and> (r3 = Inr () \<longrightarrow> connection x \<noteq> None)"
    by (drule send_frame_result) auto
  show ?thesis
    using assms
    by (auto simp: handleHandshakeResponse_def Let_def startTimeout_eq
        split: sum.splits option.splits prod.splits dest!: *)
qed

lemma handleDataMessage_keeps:
  assumes "handleDataMessage L inp md s = (s', r)"
  shows "remoteSequenceNumber s' = remoteSequenceNumber s \<and> connection s' = connection s
         \<and> state s' = state s"
proof -
  have *: "\<And>b x s3 r3. send_frame L inp MESSAGE_TYPES_ACK b x = (s3, r3) \<Longrightarrow>
          remoteSequenceNumber s3 = remoteSequenceNumber x \<and> connection s3 = connection x
          \<and> state s3 = state x"
    by (drule send_frame_result) auto
  show ?thesis
    using assms
    by (auto simp: handleDataMessage_def Let_def emit_def settle_eq js_clearTimeout_def
        split: sum.splits option.splits prod.splits list.splits if_splits dest!: *)
qed

lemma handleAcknowledgment_keeps:
  assumes "handleAcknowledgment md s = (s', r)"
  shows "remoteSequenceNumber s' = remoteSequenceNumber s \<and> connection s' = connection s
         \<and> state s' = state s"
  using assms
  by (auto simp: handleAcknowledgment_def settle_eq js_clearTimeout_def
      split: sum.splits option.splits prod.splits)

lemma closeConnection_keeps:
  "remoteSequenceNumber (closeConnection depth s) = remoteSequenceNumber s
   \<and> connection (closeConnection depth s) = None \<and> state (closeConnection depth s) = CLOSED"
  by (simp add: closeConnection_eq clearTimeout_eq)

lemma handleError_keeps:
  "remoteSequenceNumber (handleError depth e s) = remoteSequenceNumber s
   \<and> state (handleError depth e s) = CLOSED
   \<and> (connection s = None \<longrightarrow> connection (handleError depth e s) = None)"
  by (simp add: handleError_eq closeConnection_eq clearTimeout_eq)

text \<open>The \<^verbatim>\<open>try\<close> block of \<open>processMessage\<close>, named so that facts about it can be stated.\<close>

lemma processMessage_cases:
  obtains (no_keys) "sessionKeys s = None"
      "processMessage L inp buf s = handleError (stack_depth inp) TypeError s"
  | (undecoded) keys e where "sessionKeys s = Some keys"
      "snd (parseMessage L buf (encryptionKey keys) (hmacKey keys)) = Inl e"
      "processMessage L inp buf s = handleError (stack_depth inp) e s"
  | (rejected) keys m where "sessionKeys s = Some keys"
      "snd (parseMessage L buf (encryptionKey keys) (hmacKey keys)) = Inr m"
      "sequenceNumber (header m) \<le> remoteSequenceNumber s"
      "processMessage L inp buf s = handleError (stack_depth inp) InvalidSequenceNumber s"
  | (accepted) keys m s' and r :: "error + unit" where "sessionKeys s = Some keys"
      "snd (parseMessage L buf (encryptionKey keys) (hmacKey keys)) = Inr m"
      "remoteSequenceNumber s < sequenceNumber (header m)"
      "remoteSequenceNumber s' = sequenceNumber (header m)"
      "connection s' = connection s \<or> connection s' = None"
      "state s' = state s \<or> state s' = CLOSED \<or> connection s \<noteq> None"
      "processMessage L inp buf s
         = (case r of Inr u \<Rightarrow> s' | Inl e \<Rightarrow> handleError (stack_depth inp) e s')"
proof (cases "sessionKeys s")
  case None
  then show ?thesis using no_keys by (simp add: processMessage_def)
next
  case (Some keys)
  show ?thesis
  proof (cases "snd (parseMessage L buf (encryptionKey keys) (hmacKey keys))")
    case (Inl e)
    then show ?thesis using undecoded [OF Some] Some by (simp add: processMessage_def)
  next
    case (Inr m)
    show ?thesis
    proof (cases "sequenceNumber (header m) \<le> remoteSequenceNumber s")
      case True
      then show ?thesis using rejected [OF Some Inr] Some Inr by (simp add: processMessage_def)
    next
      case False
      define s1 where "s1 = s\<lparr>remoteSequenceNumber := sequenceNumber (header m)\<rparr>"
      define att where "att =
         (if messageType (header m) = MESSAGE_TYPES_HANDSHAKE_RESPONSE
          then handleHandshakeResponse L inp (payload m) s1
          else if messageType (header m) = MESSAGE_TYPES_DATA
          then handleDataMessage L inp (payload m) s1
          else if messageType (header m) = MESSAGE_TYPES_ACK
          then handleAcknowledgment (payload m) s1
          else if messageType (header m) = MESSAGE_TYPES_CLOSE
          then handleClose (stack_depth inp) (payload m) s1
          else (s1, Inl UnknownMessageType))"
      obtain s' r where att: "att = (s', r)" by (cases att)
      have f1: "remoteSequenceNumber s1 = sequenceNumber (header m)"
        "connection s1 = connection s" "state s1 = state s"
        by (simp_all add: s1_def)
      have keep: "remoteSequenceNumber s' = remoteSequenceNumber s1
          \<and> (connection s' = connection s1 \<or> connection s' = None)
          \<and> (state s' = state s1 \<or> state s' = CLOSED \<or> connection s1 \<noteq> None)"
        using att
          handleHandshakeResponse_keeps [of L inp "payload m" s1 s' r]
          handleDataMessage_keeps [of L inp "payload m" s1 s' r]
          handleAcknowledgment_keeps [of "payload m" s1 s' r]
          closeConnection_keeps [of "stack_depth inp" s1]
        unfolding att_def handleClose_def
        by (auto split: if_splits)
      have pm: "processMessage L inp buf s
         = (case r of Inr u \<Rightarrow> s' | Inl e \<Rightarrow> handleError (stack_depth inp) e s')"
        using Some Inr False att
        unfolding att_def s1_def processMessage_def Let_def
        by (simp split: sum.splits)
      from False have lt: "remoteSequenceNumber s < sequenceNumber (header m)" by simp
      have a: "remoteSequenceNumber s' = sequenceNumber (header m)" using keep f1 by simp
      have b: "connection s' = connection s \<or> connection s' = None" using keep f1 by simp
      have c: "state s' = state s \<or> state s' = CLOSED \<or> connection s \<noteq> None"
        using keep f1 by simp
      show ?thesis by (rule accepted [OF Some Inr lt a b c pm])
    qed
  qed
qed

text \<open>The value of \<^verbatim>\<open>remoteSequenceNumber\<close> after a frame.\<close>

lemma processMessage_remote:
  "remoteSequenceNumber (processMessage L inp buf s) =
     (case sessionKeys s of
        None \<Rightarrow> remoteSequenceNumber s
      | Some keys \<Rightarrow>
          (case snd (parseMessage L buf (encryptionKey keys) (hmacKey keys)) of
             Inl e \<Rightarrow> remoteSequenceNumber s
           | Inr m \<Rightarrow> if sequenceNumber (header m) \<le> remoteSequenceNumber s
                      then remoteSequenceNumber s else sequenceNumber (header m)))"
  by (rule processMessage_cases [where s = s and L = L and inp = inp and buf = buf])
     (auto simp: handleError_keeps split: sum.splits)

lemma processMessage_remote_mono:
  "remoteSequenceNumber s \<le> remoteSequenceNumber (processMessage L inp buf s)"
  unfolding processMessage_remote by (auto split: option.splits sum.splits)

lemma processMessage_closed:
  assumes "state s = CLOSED" "connection s = None"
  shows "state (processMessage L inp buf s) = CLOSED
         \<and> connection (processMessage L inp buf s) = None"
  using assms
  by (rule_tac processMessage_cases [where s = s and L = L and inp = inp and buf = buf])
     (auto simp: handleError_keeps split: sum.splits)

lemma inbound_run_sorted:
  "sorted_wrt (<) (remoteSequenceNumber s # fst (inbound_run L frames s))"
proof (induction frames arbitrary: s)
  case Nil
  then show ?case by simp
next
  case (Cons f frames)
  obtain inp buf where f: "f = (inp, buf)" by (cases f)
  define s1 where "s1 = processMessage L inp buf s"
  have le: "remoteSequenceNumber s \<le> remoteSequenceNumber s1"
    unfolding s1_def by (rule processMessage_remote_mono)
  have srt: "sorted_wrt (<) (remoteSequenceNumber s1 # fst (inbound_run L frames s1))"
    by (rule Cons.IH)
  have acc: "fst (inbound_run L (f # frames) s)
      = (if remoteSequenceNumber s1 \<noteq> remoteSequenceNumber s
         then [remoteSequenceNumber s1] else []) @ fst (inbound_run L frames s1)"
    unfolding f by (simp add: s1_def Let_def split: prod.splits)
  show ?case
  proof (cases "remoteSequenceNumber s1 = remoteSequenceNumber s")
    case True
    then show ?thesis using srt acc by simp
  next
    case False
    with le have "remoteSequenceNumber s < remoteSequenceNumber s1" by simp
    then show ?thesis using srt acc False by auto
  qed
qed


lemma parse_toy_frame:
  assumes "0 \<le> T" "T \<le> 255" "0 \<le> S" "S \<le> 2 ^ 53"
    and "json_stringify toy_library P = Some text" "json_parse toy_library text = Some P"
    and "length text < 2 ^ 32"
  shows "snd (parseMessage toy_library (toy_frame T S P) (replicate 32 0) (replicate 32 0)) =
     Inr \<lparr>header = \<lparr>version = 1, messageType = T, sequenceNumber = S,
                     payloadLength = int (length text)\<rparr>,
          payload = P\<rparr>"
proof -
  have S64: "S < 2 ^ 64" using assms(4) by simp
  have f: "length (replicate 32 (0::byte)) = 32" "length (replicate 12 (0::byte)) = 12"
    by simp_all
  have "nat S \<le> 2 ^ 53" using assms(3,4) by (simp add: nat_le_iff)
  then have n: "int (number_of_bigint (nat S)) = S"
    using number_of_bigint_exact [of "nat S"] assms(3) by simp
  from roundtrip_general [OF toy_aead_correct toy_hmac_length_ok assms(5,6,7,1,2,3) S64 f,
      of "replicate 32 0"]
  show ?thesis unfolding n by (auto simp: toy_frame_def)
qed

lemma toy_frame_true:
  assumes "0 \<le> S" "S \<le> 2 ^ 53"
  shows "snd (parseMessage toy_library (toy_frame MESSAGE_TYPES_ACK S (JBool True))
               (encryptionKey toy_keys) (hmacKey toy_keys)) =
     Inr \<lparr>header = \<lparr>version = 1, messageType = MESSAGE_TYPES_ACK, sequenceNumber = S,
                     payloadLength = 4\<rparr>,
          payload = JBool True\<rparr>"
proof -
  have a: "json_stringify toy_library (JBool True) = Some ''true''"
    by (simp add: toy_library_def)
  have b: "json_parse toy_library ''true'' = Some (JBool True)" by (simp add: toy_library_def)
  have T: "0 \<le> MESSAGE_TYPES_ACK" "MESSAGE_TYPES_ACK \<le> 255"
    by (simp_all add: MESSAGE_TYPES_ACK_def)
  show ?thesis
    using parse_toy_frame [OF T assms a b] by (simp add: toy_keys_def)
qed

lemma toy_accept:
  assumes "sessionKeys s = Some toy_keys" "remoteSequenceNumber s < S" "S \<le> 2 ^ 53" "0 \<le> S"
  shows "processMessage toy_library inp (toy_frame MESSAGE_TYPES_ACK S (JBool True)) s
           = s\<lparr>remoteSequenceNumber := S\<rparr>"
proof -
  note p = toy_frame_true [OF assms(4,3), unfolded MESSAGE_TYPES_ACK_def]
  show ?thesis
    using assms(1,2)
    by (simp add: processMessage_def Let_def p handleAcknowledgment_def get_prop_def
        pending_get_def MESSAGE_TYPES_ACK_def MESSAGE_TYPES_DATA_def
        MESSAGE_TYPES_HANDSHAKE_RESPONSE_def)
qed

text \<open>
  C2.  For every inbound frame whose header decodes: when the sequence number of the header
  is at most the stored \<^verbatim>\<open>remoteSequenceNumber\<close>, processing the frame is the error path
  for \<open>InvalidSequenceNumber\<close> on the unchanged state, so that no handler runs: the error
  handler is told, and the stored number, the outgoing counter, the promises, the receive
  queue and the pending requests stay as they were.  Otherwise the stored number becomes
  the number of the header.  So along every run of inbound frames the numbers newly stored
  are strictly increasing and above the number stored before.
\<close>

theorem inbound_sequence_invariant:
  "(sessionKeys s = Some keys
      \<and> snd (parseMessage L buf (encryptionKey keys) (hmacKey keys)) = Inr m \<longrightarrow>
        (sequenceNumber (header m) \<le> remoteSequenceNumber s \<longrightarrow>
           processMessage L inp buf s = handleError (stack_depth inp) InvalidSequenceNumber s
           \<and> remoteSequenceNumber (processMessage L inp buf s) = remoteSequenceNumber s
           \<and> this_sequenceNumber (processMessage L inp buf s) = this_sequenceNumber s
           \<and> promises (processMessage L inp buf s) = promises s
           \<and> messageQueue (processMessage L inp buf s) = messageQueue s
           \<and> pendingRequests (processMessage L inp buf s) = pendingRequests s
           \<and> (onError s \<longrightarrow>
                OnError InvalidSequenceNumber \<in> set (events (processMessage L inp buf s))))
        \<and> (remoteSequenceNumber s < sequenceNumber (header m) \<longrightarrow>
             remoteSequenceNumber (processMessage L inp buf s) = sequenceNumber (header m)))
   \<and> sorted_wrt (<) (remoteSequenceNumber s # fst (inbound_run L frames s))"
proof (intro conjI impI)
  assume a: "sessionKeys s = Some keys
      \<and> snd (parseMessage L buf (encryptionKey keys) (hmacKey keys)) = Inr m"
    and le: "sequenceNumber (header m) \<le> remoteSequenceNumber s"
  show eq: "processMessage L inp buf s = handleError (stack_depth inp) InvalidSequenceNumber s"
    using a le by (simp add: processMessage_def)
  show "remoteSequenceNumber (processMessage L inp buf s) = remoteSequenceNumber s"
    unfolding eq by (simp add: handleError_keeps)
  show "this_sequenceNumber (processMessage L inp buf s) = this_sequenceNumber s"
    unfolding eq by (simp add: handleError_eq closeConnection_eq clearTimeout_eq)
  show "promises (processMessage L inp buf s) = promises s"
    unfolding eq by (simp add: handleError_eq closeConnection_eq clearTimeout_eq)
  show "messageQueue (processMessage L inp buf s) = messageQueue s"
    unfolding eq by (simp add: handleError_eq closeConnection_eq clearTimeout_eq)
  show "pendingRequests (processMessage L inp buf s) = pendingRequests s"
    unfolding eq by (simp add: handleError_eq closeConnection_eq clearTimeout_eq)
  assume "onError s"
  then show "OnError InvalidSequenceNumber \<in> set (events (processMessage L inp buf s))"
    unfolding eq by (simp add: handleError_eq closeConnection_eq clearTimeout_eq)
next
  assume a: "sessionKeys s = Some keys
      \<and> snd (parseMessage L buf (encryptionKey keys) (hmacKey keys)) = Inr m"
    and lt: "remoteSequenceNumber s < sequenceNumber (header m)"
  show "remoteSequenceNumber (processMessage L inp buf s) = sequenceNumber (header m)"
    unfolding processMessage_remote using a lt by simp
next
  show "sorted_wrt (<) (remoteSequenceNumber s # fst (inbound_run L frames s))"
    by (rule inbound_run_sorted)
qed

theorem inbound_sequence_invariant_witness:
  "processMessage toy_library toy_inputs (toy_frame MESSAGE_TYPES_ACK 5 (JBool True)) toy_receiver
     = handleError 3 InvalidSequenceNumber toy_receiver
   \<and> remoteSequenceNumber
        (processMessage toy_library toy_inputs (toy_frame MESSAGE_TYPES_ACK 5 (JBool True))
           toy_receiver) = 5
   \<and> remoteSequenceNumber
        (processMessage toy_library toy_inputs (toy_frame MESSAGE_TYPES_ACK 9 (JBool True))
           toy_receiver) = 9
   \<and> fst (inbound_run toy_library
           [(toy_inputs, toy_frame MESSAGE_TYPES_ACK 9 (JBool True)),
            (toy_inputs, toy_frame MESSAGE_TYPES_ACK 9 (JBool True)),
            (toy_inputs, toy_frame MESSAGE_TYPES_ACK 3 (JBool True)),
            (toy_inputs, toy_frame MESSAGE_TYPES_ACK 12 (JBool True))] toy_receiver)
       = [9, 12]
   \<and> sorted_wrt (<) [5, 9, 12 :: int]"
proof -
  have k: "sessionKeys toy_receiver = Some toy_keys" and r: "remoteSequenceNumber toy_receiver = 5"
    by (simp_all add: toy_receiver_def new_protocol_def)
  have d: "stack_depth toy_inputs = 3" by (simp add: toy_inputs_def)
  have p5: "snd (parseMessage toy_library (toy_frame MESSAGE_TYPES_ACK 5 (JBool True))
               (encryptionKey toy_keys) (hmacKey toy_keys)) =
     Inr \<lparr>header = \<lparr>version = 1, messageType = MESSAGE_TYPES_ACK, sequenceNumber = 5,
                     payloadLength = 4\<rparr>, payload = JBool True\<rparr>"
    by (rule toy_frame_true) simp_all
  have p9: "snd (parseMessage toy_library (toy_frame MESSAGE_TYPES_ACK 9 (JBool True))
               (encryptionKey toy_keys) (hmacKey toy_keys)) =
     Inr \<lparr>header = \<lparr>version = 1, messageType = MESSAGE_TYPES_ACK, sequenceNumber = 9,
                     payloadLength = 4\<rparr>, payload = JBool True\<rparr>"
    by (rule toy_frame_true) simp_all
  have p3: "snd (parseMessage toy_library (toy_frame MESSAGE_TYPES_ACK 3 (JBool True))
               (encryptionKey toy_keys) (hmacKey toy_keys)) =
     Inr \<lparr>header = \<lparr>version = 1, messageType = MESSAGE_TYPES_ACK, sequenceNumber = 3,
                     payloadLength = 4\<rparr>, payload = JBool True\<rparr>"
    by (rule toy_frame_true) simp_all
  have w1: "processMessage toy_library toy_inputs (toy_frame MESSAGE_TYPES_ACK 5 (JBool True))
      toy_receiver = handleError 3 InvalidSequenceNumber toy_receiver
    \<and> remoteSequenceNumber
        (processMessage toy_library toy_inputs (toy_frame MESSAGE_TYPES_ACK 5 (JBool True))
           toy_receiver) = 5"
    using inbound_sequence_invariant [of toy_receiver toy_keys toy_library
        "toy_frame MESSAGE_TYPES_ACK 5 (JBool True)"
        "\<lparr>header = \<lparr>version = 1, messageType = MESSAGE_TYPES_ACK, sequenceNumber = 5,
            payloadLength = 4\<rparr>, payload = JBool True\<rparr>" toy_inputs "[]"] k p5 r d
    by auto
  have w2: "remoteSequenceNumber
        (processMessage toy_library toy_inputs (toy_frame MESSAGE_TYPES_ACK 9 (JBool True))
           toy_receiver) = 9"
    using inbound_sequence_invariant [of toy_receiver toy_keys toy_library
        "toy_frame MESSAGE_TYPES_ACK 9 (JBool True)"
        "\<lparr>header = \<lparr>version = 1, messageType = MESSAGE_TYPES_ACK, sequenceNumber = 9,
            payloadLength = 4\<rparr>, payload = JBool True\<rparr>" toy_inputs "[]"] k p9 r
    by auto
  define s1 where "s1 = toy_receiver\<lparr>remoteSequenceNumber := 9\<rparr>"
  define s2 where "s2 = handleError 3 InvalidSequenceNumber s1"
  have a1: "processMessage toy_library toy_inputs (toy_frame MESSAGE_TYPES_ACK 9 (JBool True))
       toy_receiver = s1"
    unfolding s1_def by (rule toy_accept) (simp_all add: k r)
  have s1f: "sessionKeys s1 = Some toy_keys" "remoteSequenceNumber s1 = 9"
    using k by (simp_all add: s1_def)
  have s2f: "sessionKeys s2 = Some toy_keys" "remoteSequenceNumber s2 = 9" "state s2 = CLOSED"
    using s1f by (simp_all add: s2_def handleError_eq closeConnection_eq clearTimeout_eq)
  have a2: "processMessage toy_library toy_inputs (toy_frame MESSAGE_TYPES_ACK 9 (JBool True)) s1
              = s2"
    using inbound_sequence_invariant [of s1 toy_keys toy_library
        "toy_frame MESSAGE_TYPES_ACK 9 (JBool True)"
        "\<lparr>header = \<lparr>version = 1, messageType = MESSAGE_TYPES_ACK, sequenceNumber = 9,
            payloadLength = 4\<rparr>, payload = JBool True\<rparr>" toy_inputs "[]"] s1f p9 d
    by (auto simp: s2_def)
  have a3: "remoteSequenceNumber
      (processMessage toy_library toy_inputs (toy_frame MESSAGE_TYPES_ACK 3 (JBool True)) s2) = 9"
    using inbound_sequence_invariant [of s2 toy_keys toy_library
        "toy_frame MESSAGE_TYPES_ACK 3 (JBool True)"
        "\<lparr>header = \<lparr>version = 1, messageType = MESSAGE_TYPES_ACK, sequenceNumber = 3,
            payloadLength = 4\<rparr>, payload = JBool True\<rparr>" toy_inputs "[]"] s2f p3
    by auto
  define s3 where
    "s3 = processMessage toy_library toy_inputs (toy_frame MESSAGE_TYPES_ACK 3 (JBool True)) s2"
  have s3k: "sessionKeys s3 = Some toy_keys"
    using inbound_sequence_invariant [of s2 toy_keys toy_library
        "toy_frame MESSAGE_TYPES_ACK 3 (JBool True)"
        "\<lparr>header = \<lparr>version = 1, messageType = MESSAGE_TYPES_ACK, sequenceNumber = 3,
            payloadLength = 4\<rparr>, payload = JBool True\<rparr>" toy_inputs "[]"] s2f p3
    by (auto simp: s3_def handleError_eq)
  have a4: "processMessage toy_library toy_inputs (toy_frame MESSAGE_TYPES_ACK 12 (JBool True)) s3
              = s3\<lparr>remoteSequenceNumber := 12\<rparr>"
    by (rule toy_accept) (simp_all add: s3k a3 [folded s3_def])
  have run: "fst (inbound_run toy_library
           [(toy_inputs, toy_frame MESSAGE_TYPES_ACK 9 (JBool True)),
            (toy_inputs, toy_frame MESSAGE_TYPES_ACK 9 (JBool True)),
            (toy_inputs, toy_frame MESSAGE_TYPES_ACK 3 (JBool True)),
            (toy_inputs, toy_frame MESSAGE_TYPES_ACK 12 (JBool True))] toy_receiver)
       = [9, 12]"
    using a1 a2 a3 a4 r s1f s2f
    by (simp add: Let_def s3_def [symmetric] split: prod.splits)
  have "sorted_wrt (<) (remoteSequenceNumber toy_receiver # fst (inbound_run toy_library
           [(toy_inputs, toy_frame MESSAGE_TYPES_ACK 9 (JBool True)),
            (toy_inputs, toy_frame MESSAGE_TYPES_ACK 9 (JBool True)),
            (toy_inputs, toy_frame MESSAGE_TYPES_ACK 3 (JBool True)),
            (toy_inputs, toy_frame MESSAGE_TYPES_ACK 12 (JBool True))] toy_receiver))"
    using inbound_sequence_invariant [of toy_receiver toy_keys toy_library "[]" undefined toy_inputs
        "[(toy_inputs, toy_frame MESSAGE_TYPES_ACK 9 (JBool True)),
            (toy_inputs, toy_frame MESSAGE_TYPES_ACK 9 (JBool True)),
            (toy_inputs, toy_frame MESSAGE_TYPES_ACK 3 (JBool True)),
            (toy_inputs, toy_frame MESSAGE_TYPES_ACK 12 (JBool True))]"]
    by blast
  then have srt: "sorted_wrt (<) [5, 9, 12 :: int]" unfolding run r .
  show ?thesis using w1 w2 run srt by blast
qed

end
